theory Spec2Isabelle
  imports Complex_Main "HOL-Library.Word"
begin

section \<open>The CIF document model\<close>

text \<open>
  The validator of \<^verbatim>\<open>ddl.hpp\<close> reads documents through the fields
  \<^verbatim>\<open>blocks\<close>, \<^verbatim>\<open>items\<close>, \<^verbatim>\<open>name\<close>, \<^verbatim>\<open>type\<close>, \<^verbatim>\<open>tv.tag\<close>, \<^verbatim>\<open>tv.value\<close>,
  \<^verbatim>\<open>loop.tags\<close>, \<^verbatim>\<open>loop.values\<close> and \<^verbatim>\<open>frame\<close>. An item is a tagged union of a
  tag/value pair, a loop (declared tags and a flat row-major value sequence) and a
  save frame, which is itself a block.
\<close>

datatype item =
    Value (tv_tag: string) (tv_value: string)
  | Loop (loop_tags: "string list") (loop_values: "string list")
  | Frame (frame: block)
and block = Block (name: string) (items: "item list")

record document =
  blocks :: "block list"

text \<open>
  Modelled from the spec: \<^verbatim>\<open>Block::find_value\<close> is declared in \<^verbatim>\<open>cif.hpp\<close>, which is
  not among the sources. It finds the first scalar value for a tag in a block and
  returns none if the tag is absent or only occurs inside a loop.
\<close>

fun find_value_items :: "item list \<Rightarrow> string \<Rightarrow> string option" where
  "find_value_items [] tag = None"
| "find_value_items (Value t v # rest) tag =
     (if t = tag then Some v else find_value_items rest tag)"
| "find_value_items (Loop ts vs # rest) tag = find_value_items rest tag"
| "find_value_items (Frame f # rest) tag = find_value_items rest tag"

text \<open>
  Modelled from the spec: \<^verbatim>\<open>Block::find_value\<close> itself, the search above run over the
  items of the block.
\<close>

definition find_value :: "block \<Rightarrow> string \<Rightarrow> string option" where
  "find_value b tag = find_value_items (items b) tag"

text \<open>
  Modelled from the spec: \<^verbatim>\<open>Block::find_loop\<close> is declared in \<^verbatim>\<open>cif.hpp\<close>, which is
  not among the sources. It finds all values under a tag across any loop in a block
  and returns an empty sequence if the tag is absent. Row \<open>r\<close>, column \<open>c\<close> of a loop
  with \<open>w\<close> tags is \<open>values[r*w+c]\<close>, so the values under a tag are those at the
  positions whose column carries that tag.
\<close>

definition loop_column :: "string list \<Rightarrow> string list \<Rightarrow> string \<Rightarrow> string list" where
  "loop_column ts vs tag =
     (if ts = [] then []
      else map (\<lambda>j. vs ! j)
             (filter (\<lambda>j. ts ! (j mod length ts) = tag) [0..<length vs]))"

text \<open>
  Modelled from the spec: the values under a tag across the loops of an item sequence,
  in item order, and \<^verbatim>\<open>Block::find_loop\<close> itself, which runs it over the items of
  the block.
\<close>

fun find_loop_items :: "item list \<Rightarrow> string \<Rightarrow> string list" where
  "find_loop_items [] tag = []"
| "find_loop_items (Value t v # rest) tag = find_loop_items rest tag"
| "find_loop_items (Loop ts vs # rest) tag = loop_column ts vs tag @ find_loop_items rest tag"
| "find_loop_items (Frame f # rest) tag = find_loop_items rest tag"

definition find_loop :: "block \<Rightarrow> string \<Rightarrow> string list" where
  "find_loop b tag = find_loop_items (items b) tag"

section \<open>The value lexicon\<close>

text \<open>
  A C++ floating-point value, \<^verbatim>\<open>double\<close> or \<^verbatim>\<open>float\<close>, as far as the validator uses it:
  not-a-number, an infinity or a finite number. The comparisons \<^verbatim>\<open><\<close> and \<^verbatim>\<open>></\<close> are
  false as soon as one side is not a number.
\<close>

datatype cfloat = NaN | NegInf | Finite real | PosInf

fun float_less :: "cfloat \<Rightarrow> cfloat \<Rightarrow> bool" where
  "float_less NaN y = False"
| "float_less x NaN = False"
| "float_less x NegInf = False"
| "float_less PosInf y = False"
| "float_less NegInf y = True"
| "float_less (Finite a) PosInf = True"
| "float_less (Finite a) (Finite b) = (a < b)"

definition float_greater :: "cfloat \<Rightarrow> cfloat \<Rightarrow> bool" where
  "float_greater x y = float_less y x"

text \<open>
  The conversion of a \<^verbatim>\<open>double\<close> to a \<^verbatim>\<open>float\<close>, as in \<^verbatim>\<open>float x = as_number(value)\<close>:
  the nearest number with a significand of 24 bits, a tie going to the even significand
  (\<open>round_binary32\<close>, with the least unit \<open>2^-149\<close> of the 32-bit format), and an
  infinity when that number reaches \<open>2^128\<close>. \<open>binary_exponent x\<close> is the \<open>e\<close> with
  \<open>2^e \<le> |x| < 2^(e+1)\<close>, for \<open>x\<close> other than 0.
\<close>

fun bit_length :: "nat \<Rightarrow> nat" where
  "bit_length n = (if n = 0 then 0 else Suc (bit_length (n div 2)))"

declare bit_length.simps [simp del]

definition binary_exponent :: "real \<Rightarrow> int" where
  "binary_exponent x =
     (if 1 \<le> \<bar>x\<bar> then int (bit_length (nat \<lfloor>\<bar>x\<bar>\<rfloor>)) - 1
      else - int (bit_length (nat (\<lceil>1 / \<bar>x\<bar>\<rceil> - 1))))"

definition pow2 :: "int \<Rightarrow> real" where
  "pow2 k = (if 0 \<le> k then 2 ^ nat k else 1 / 2 ^ nat (- k))"

definition round_half_even :: "real \<Rightarrow> int" where
  "round_half_even q =
     (let f = \<lfloor>q\<rfloor>; d = q - of_int f
      in if d < 1 / 2 then f else if 1 / 2 < d then f + 1
         else if even f then f else f + 1)"

definition round_binary32 :: "real \<Rightarrow> real" where
  "round_binary32 x =
     (if x = 0 then 0
      else
        (let u = max (binary_exponent x) (- 126) - 23
         in of_int (round_half_even (x / pow2 u)) * pow2 u))"

definition to_float :: "cfloat \<Rightarrow> cfloat" where
  "to_float d =
     (case d of
        NaN \<Rightarrow> NaN | NegInf \<Rightarrow> NegInf | PosInf \<Rightarrow> PosInf
      | Finite x \<Rightarrow>
          (let r = round_binary32 x
           in if 2 ^ 128 \<le> r then PosInf
              else if r \<le> - (2 ^ 128) then NegInf
              else Finite r))"

text \<open>
  The lexicon functions \<^verbatim>\<open>as_string\<close> (unquoting), \<^verbatim>\<open>is_numb\<close> (the numb lexical
  class) and \<^verbatim>\<open>as_number\<close> (numeric conversion) live in \<^verbatim>\<open>cif.hpp\<close> and
  \<^verbatim>\<open>numb.hpp\<close>, which are not among the sources; they are parameters of the model.
  \<^verbatim>\<open>as_number\<close> returns a \<^verbatim>\<open>double\<close>, which \<^verbatim>\<open>ddl.hpp\<close> stores in a \<^verbatim>\<open>float\<close>:
  the model applies \<open>to_float\<close> wherever the source does so.
  \<^verbatim>\<open>TypeCheckDDL1\<close> leaves \<^verbatim>\<open>range_low_\<close> and \<^verbatim>\<open>range_high_\<close> without an initialiser;
  \<open>indet_low\<close> and \<open>indet_high\<close> are the indeterminate values they start with.
\<close>

record lexicon =
  as_string :: "string \<Rightarrow> string"
  is_numb :: "string \<Rightarrow> bool"
  as_number :: "string \<Rightarrow> cfloat"
  indet_low :: cfloat
  indet_high :: cfloat

text \<open>
  Modelled from the spec: \<^verbatim>\<open>is_null\<close> is declared in \<^verbatim>\<open>cif.hpp\<close>, which is not
  among the sources. The null markers are \<^verbatim>\<open>?\<close> (unknown) and \<^verbatim>\<open>.\<close> (inapplicable),
  and both satisfy \<^verbatim>\<open>is_null\<close>.
\<close>

definition is_null :: "string \<Rightarrow> bool" where
  "is_null v = (v = ''?'' \<or> v = ''.'')"

section \<open>The dictionary: class DDL\<close>

text \<open>
  \<^verbatim>\<open>name_index_\<close> is a \<^verbatim>\<open>std::unordered_map\<close> from names to pointers into the
  dictionary document, which is never changed after loading: the map stores the
  block itself. The members carry the source's names without the trailing underscore.
\<close>

record DDL =
  version :: int
  ddl :: document
  name_index :: "string \<rightharpoonup> block"
  dict_name :: string
  dict_version :: string
  sep :: string

text \<open>
  A default-constructed \<^verbatim>\<open>DDL\<close>: empty document, index and strings; \<^verbatim>\<open>version_\<close>
  has no initialiser and starts with an indeterminate value \<open>v\<close>.
\<close>

definition DDL_new :: "int \<Rightarrow> DDL" where
  "DDL_new v = \<lparr>version = v, ddl = \<lparr>blocks = []\<rparr>, name_index = Map.empty,
                dict_name = [], dict_version = [], sep = []\<rparr>"

text \<open>\<^verbatim>\<open>DDL::find\<close>: the indexed block, or none (\<^verbatim>\<open>nullptr\<close>).\<close>

definition DDL_find :: "DDL \<Rightarrow> string \<Rightarrow> block option" where
  "DDL_find d nm = name_index d nm"

text \<open>
  \<^verbatim>\<open>std::unordered_map::emplace\<close> inserts the pair only if the key is not yet
  present; an existing entry is left as it is.
\<close>

definition emplace :: "(string \<rightharpoonup> block) \<Rightarrow> string \<Rightarrow> block \<Rightarrow> (string \<rightharpoonup> block)" where
  "emplace m k b = (case m k of None \<Rightarrow> m(k \<mapsto> b) | Some old \<Rightarrow> m)"

definition add_to_index :: "lexicon \<Rightarrow> block \<Rightarrow> string \<Rightarrow> DDL \<Rightarrow> DDL" where
  "add_to_index L b name_tag d =
     (case find_value b name_tag of
        Some nm \<Rightarrow> d\<lparr>name_index := emplace (name_index d) (as_string L nm) b\<rparr>
      | None \<Rightarrow>
          foldl (\<lambda>s lname. s\<lparr>name_index := emplace (name_index s) (as_string L lname) b\<rparr>)
            d (find_loop b name_tag))"

definition read_ddl1_block :: "lexicon \<Rightarrow> DDL \<Rightarrow> block \<Rightarrow> DDL" where
  "read_ddl1_block L d b =
     (let d1 = add_to_index L b ''_name'' d in
      if name b = ''on_this_dictionary'' then
        (let d2 = (case find_value b ''_dictionary_name'' of
                     Some dic_name \<Rightarrow> d1\<lparr>dict_name := as_string L dic_name\<rparr>
                   | None \<Rightarrow> d1)
         in (case find_value b ''_dictionary_version'' of
               Some dic_ver \<Rightarrow> d2\<lparr>dict_version := as_string L dic_ver\<rparr>
             | None \<Rightarrow> d2))
      else d1)"

definition read_ddl1 :: "lexicon \<Rightarrow> DDL \<Rightarrow> DDL" where
  "read_ddl1 L d = foldl (read_ddl1_block L) d (blocks (ddl d))"

fun read_ddl2_item :: "lexicon \<Rightarrow> DDL \<Rightarrow> item \<Rightarrow> DDL" where
  "read_ddl2_item L d (Frame f) = add_to_index L f ''_item.name'' d"
| "read_ddl2_item L d (Value t v) =
     (if t = ''_dictionary.title'' then d\<lparr>dict_name := v\<rparr>
      else if t = ''_dictionary.version'' then d\<lparr>dict_version := v\<rparr>
      else d)"
| "read_ddl2_item L d (Loop ts vs) = d"

definition read_ddl2 :: "lexicon \<Rightarrow> DDL \<Rightarrow> DDL" where
  "read_ddl2 L d =
     foldl (\<lambda>s blk. foldl (read_ddl2_item L) s (items blk)) d (blocks (ddl d))"

text \<open>
  \<^verbatim>\<open>open_file\<close>: \<^verbatim>\<open>ddl_.read_file(filename)\<close> is file input and the parser, which
  are not part of the model; \<open>doc\<close> is the document it leaves in \<^verbatim>\<open>ddl_\<close>.
\<close>

definition open_file :: "lexicon \<Rightarrow> document \<Rightarrow> DDL \<Rightarrow> DDL" where
  "open_file L doc d =
     (let d1 = d\<lparr>ddl := doc\<rparr>;
          d2 = d1\<lparr>version := (if length (blocks (ddl d1)) > 1 then 1 else 2)\<rparr>;
          d3 = d2\<lparr>sep := (if version d2 = 1 then ''_'' else ''.'')\<rparr>
      in if version d3 = 1 then read_ddl1 L d3 else read_ddl2 L d3)"

text \<open>
  An out-parameter \<^verbatim>\<open>std::string* msg\<close> is an optional string: \<open>None\<close> is the null
  pointer, \<open>Some s\<close> a pointer to a string holding \<open>s\<close>. \<^verbatim>\<open>if (msg) *msg = t\<close> is:
\<close>

definition assign_msg :: "string option \<Rightarrow> string \<Rightarrow> string option" where
  "assign_msg pmsg t = (case pmsg of None \<Rightarrow> None | Some old \<Rightarrow> Some t)"

fun check_audit_conform_blocks ::
  "lexicon \<Rightarrow> DDL \<Rightarrow> string \<Rightarrow> block list \<Rightarrow> string option \<Rightarrow> bool \<times> string option" where
  "check_audit_conform_blocks L d audit_conform [] pmsg =
     (True, assign_msg pmsg (''The cif file is missing '' @ audit_conform @ ''dict_(name|version)''))"
| "check_audit_conform_blocks L d audit_conform (b # bs) pmsg =
     (case find_value b (audit_conform @ ''dict_name'') of
        None \<Rightarrow> check_audit_conform_blocks L d audit_conform bs pmsg
      | Some dname \<Rightarrow>
          (let nm = as_string L dname in
           if nm \<noteq> dict_name d then
             (False, assign_msg pmsg (''Dictionary name mismatch: '' @ nm @ '' vs '' @ dict_name d))
           else
             (case find_value b (audit_conform @ ''dict_version'') of
                Some dver \<Rightarrow>
                  (let ver = as_string L dver in
                   if ver \<noteq> dict_version d then
                     (False, assign_msg pmsg (''CIF conforms to '' @ nm @ '' ver. '' @ ver
                                @ '' while DDL has ver. '' @ dict_version d))
                   else check_audit_conform_blocks L d audit_conform bs pmsg)
              | None \<Rightarrow> check_audit_conform_blocks L d audit_conform bs pmsg)))"

definition check_audit_conform ::
  "lexicon \<Rightarrow> DDL \<Rightarrow> document \<Rightarrow> string option \<Rightarrow> bool \<times> string option" where
  "check_audit_conform L d c pmsg =
     check_audit_conform_blocks L d (''_audit_conform'' @ sep d) (blocks c) pmsg"

section \<open>Type checks\<close>

datatype Trinary = Unset | Yes | No

text \<open>
  \<^verbatim>\<open>validate_enumeration\<close>: the message lists the allowed values, each followed by
  a comma, and then overwrites the last character by a full stop.
\<close>

definition validate_enumeration ::
  "lexicon \<Rightarrow> string \<Rightarrow> string list \<Rightarrow> string option \<Rightarrow> bool \<times> string option" where
  "validate_enumeration L val en pmsg =
     (if en = [] \<or> is_null val \<or> as_string L val \<in> set en then (True, pmsg)
      else
        (let m = foldl (\<lambda>m e. m @ '' '' @ e @ '','') ([CHR 0x27] @ val @ [CHR 0x27] @ '' is not one of:'') en
         in (False, assign_msg pmsg (m[length m - 1 := CHR ''.'']))))"

text \<open>
  The members of \<^verbatim>\<open>TypeCheckDDL1\<close>, named as in the source with the suffix \<open>1\<close>
  in place of the trailing underscore (\<open>2\<close> for \<^verbatim>\<open>TypeCheckDDL2\<close>).
\<close>

record TypeCheckDDL1 =
  is_list1 :: Trinary
  is_numb1 :: Trinary
  has_su1 :: bool
  has_range1 :: bool
  range_low1 :: cfloat
  range_high1 :: cfloat
  enumeration1 :: "string list"

definition TypeCheckDDL1_new :: "lexicon \<Rightarrow> TypeCheckDDL1" where
  "TypeCheckDDL1_new L =
     \<lparr>is_list1 = Unset, is_numb1 = Unset, has_su1 = False, has_range1 = False,
      range_low1 = indet_low L, range_high1 = indet_high L, enumeration1 = []\<rparr>"

text \<open>\<^verbatim>\<open>std::string::find(':')\<close>: the position of the first colon, if any.\<close>

fun str_find :: "string \<Rightarrow> char \<Rightarrow> nat option" where
  "str_find [] ch = None"
| "str_find (x # xs) ch =
     (if x = ch then Some 0 else map_option Suc (str_find xs ch))"

definition load_enumeration1 :: "lexicon \<Rightarrow> block \<Rightarrow> TypeCheckDDL1 \<Rightarrow> TypeCheckDDL1" where
  "load_enumeration1 L b tc =
     foldl (\<lambda>t e. t\<lparr>enumeration1 := enumeration1 t @ [as_string L e]\<rparr>) tc
       (find_loop b ''_enumeration'')"

text \<open>
  \<^verbatim>\<open>TypeCheckDDL1::from_block\<close>. A range without a colon returns early: the bounds
  keep their indeterminate values and the enumeration is not read.
\<close>

definition from_block1 :: "lexicon \<Rightarrow> block \<Rightarrow> TypeCheckDDL1 \<Rightarrow> TypeCheckDDL1" where
  "from_block1 L b tc =
     (let tc1 = (case find_value b ''_list'' of
                   Some l \<Rightarrow> if l = ''yes'' then tc\<lparr>is_list1 := Yes\<rparr>
                             else if l = ''no'' then tc\<lparr>is_list1 := No\<rparr> else tc
                 | None \<Rightarrow> tc);
          tc2 = (case find_value b ''_type'' of
                   Some t \<Rightarrow> tc1\<lparr>is_numb1 := (if t = ''numb'' then Yes else No)\<rparr>
                 | None \<Rightarrow> tc1);
          tc3 = (case find_value b ''_type_conditions'' of
                   Some cond \<Rightarrow> tc2\<lparr>has_su1 := (cond = ''esd'' \<or> cond = ''su'')\<rparr>
                 | None \<Rightarrow> tc2)
      in case find_value b ''_enumeration_range'' of
           Some range_str \<Rightarrow>
             (let tc4 = tc3\<lparr>has_range1 := True\<rparr> in
              case str_find range_str CHR '':'' of
                None \<Rightarrow> tc4
              | Some colon_pos \<Rightarrow>
                  (let low = take colon_pos range_str;
                       high = drop (colon_pos + 1) range_str;
                       tc5 = tc4\<lparr>range_low1 := (if low = [] then NegInf
                                               else to_float (as_number L low))\<rparr>;
                       tc6 = tc5\<lparr>range_high1 := (if high = [] then PosInf
                                                else to_float (as_number L high))\<rparr>
                   in load_enumeration1 L b tc6))
         | None \<Rightarrow> load_enumeration1 L b tc3)"

definition validate_value1 ::
  "lexicon \<Rightarrow> TypeCheckDDL1 \<Rightarrow> string \<Rightarrow> string option \<Rightarrow> bool \<times> string option" where
  "validate_value1 L tc val pmsg =
     (if is_numb1 tc = Yes then
        (if \<not> is_null val \<and> \<not> is_numb L val then
           (False, assign_msg pmsg ''expected number'')
         else if has_range1 tc then
           (let x = to_float (as_number L val) in
            if float_less x (range_low1 tc) \<or> float_greater x (range_high1 tc) then
              (False, assign_msg pmsg (''value out of expected range: '' @ val))
            else validate_enumeration L val (enumeration1 tc) pmsg)
         else validate_enumeration L val (enumeration1 tc) pmsg)
      else validate_enumeration L val (enumeration1 tc) pmsg)"

record TypeCheckDDL2 =
  is_numb2 :: Trinary
  has_range2 :: bool
  range_low2 :: cfloat
  range_high2 :: cfloat
  enumeration2 :: "string list"

definition TypeCheckDDL2_new :: "lexicon \<Rightarrow> TypeCheckDDL2" where
  "TypeCheckDDL2_new L =
     \<lparr>is_numb2 = Unset, has_range2 = False,
      range_low2 = indet_low L, range_high2 = indet_high L, enumeration2 = []\<rparr>"

definition from_block2 :: "lexicon \<Rightarrow> block \<Rightarrow> TypeCheckDDL2 \<Rightarrow> TypeCheckDDL2" where
  "from_block2 L b tc =
     foldl (\<lambda>t e. t\<lparr>enumeration2 := enumeration2 t @ [as_string L e]\<rparr>) tc
       (find_loop b ''_item_enumeration.value'')"

definition validate_value2 ::
  "lexicon \<Rightarrow> TypeCheckDDL2 \<Rightarrow> string \<Rightarrow> string option \<Rightarrow> bool \<times> string option" where
  "validate_value2 L tc val pmsg = validate_enumeration L val (enumeration2 tc) pmsg"

section \<open>Validation of a document\<close>

text \<open>
  What \<^verbatim>\<open>DDL::validate\<close> works on besides its arguments: the failures handed to
  \<^verbatim>\<open>cif_fail\<close> so far, the caller's \<^verbatim>\<open>unknown_tags\<close> vector (\<open>None\<close> for the null
  pointer) and the local string \<^verbatim>\<open>msg\<close>.
\<close>

record validation =
  failures :: "(block \<times> item \<times> string) list"
  unknown_tags :: "string list option"
  msg :: string

text \<open>
  Modelled from the spec: \<^verbatim>\<open>cif_fail\<close> is declared in \<^verbatim>\<open>cif.hpp\<close>, which is not
  among the sources. It is the single failure-reporting hook: each failure is reported
  through it, carrying the originating block, the item and a human-readable message,
  and it is never raised as an exception, so the validator keeps checking.
\<close>

definition cif_fail :: "document \<Rightarrow> block \<Rightarrow> item \<Rightarrow> string \<Rightarrow> validation \<Rightarrow> validation" where
  "cif_fail c b it s st = st\<lparr>failures := failures st @ [(b, it, s)]\<rparr>"

text \<open>\<^verbatim>\<open>if (unknown_tags) unknown_tags->emplace_back(tag)\<close>\<close>

definition add_unknown :: "string \<Rightarrow> validation \<Rightarrow> validation" where
  "add_unknown tag st =
     (case unknown_tags st of
        Some u \<Rightarrow> st\<lparr>unknown_tags := Some (u @ [tag])\<rparr>
      | None \<Rightarrow> st)"

text \<open>
  \<^verbatim>\<open>if (!tc.validate_value(v, &msg)) cif_fail(c, b, item, msg)\<close>, for the
  \<^verbatim>\<open>validate_value\<close> of either type check.
\<close>

definition check_value ::
  "(string \<Rightarrow> string option \<Rightarrow> bool \<times> string option) \<Rightarrow>
   document \<Rightarrow> block \<Rightarrow> item \<Rightarrow> string \<Rightarrow> validation \<Rightarrow> validation" where
  "check_value vv c b it v st =
     (case vv v (Some (msg st)) of
        (ok, m) \<Rightarrow>
          (let st1 = st\<lparr>msg := (case m of Some s \<Rightarrow> s | None \<Rightarrow> msg st)\<rparr>
           in if \<not> ok then cif_fail c b it (msg st1) st1 else st1))"

text \<open>
  \<^verbatim>\<open>for (size_t j = i; j < item.loop.values.size(); j += ncol)\<close>. The loop stands
  inside \<^verbatim>\<open>for (int i = 0; i != ncol; i++)\<close>, so it is only reached with
  \<open>0 < ncol\<close>; the model stops at once for \<open>ncol = 0\<close>.
\<close>

function validate_values ::
  "(string \<Rightarrow> string option \<Rightarrow> bool \<times> string option) \<Rightarrow>
   document \<Rightarrow> block \<Rightarrow> item \<Rightarrow> string list \<Rightarrow> nat \<Rightarrow> nat \<Rightarrow> validation \<Rightarrow> validation" where
  "validate_values vv c b it vals ncol j st =
     (if j < length vals \<and> 0 < ncol
      then validate_values vv c b it vals ncol (j + ncol) (check_value vv c b it (vals ! j) st)
      else st)"
  by pat_completeness auto
termination
  by (relation "measure (\<lambda>(vv, c, b, it, vals, ncol, j, st). length vals - j)") auto

declare validate_values.simps [simp del]

definition validate_column ::
  "lexicon \<Rightarrow> DDL \<Rightarrow> document \<Rightarrow> block \<Rightarrow> item \<Rightarrow> validation \<Rightarrow> nat \<Rightarrow> validation" where
  "validate_column L d c b it st i =
     (let ncol = length (loop_tags it);
          tag = loop_tags it ! i
      in case DDL_find d tag of
           None \<Rightarrow> add_unknown tag st
         | Some dict_block \<Rightarrow>
             if version d = 1 then
               (let tc = from_block1 L dict_block (TypeCheckDDL1_new L);
                    st1 = (if is_list1 tc = No then cif_fail c b it (tag @ '' in list'') st else st)
                in validate_values (validate_value1 L tc) c b it (loop_values it) ncol i st1)
             else
               (let tc = from_block2 L dict_block (TypeCheckDDL2_new L)
                in validate_values (validate_value2 L tc) c b it (loop_values it) ncol i st))"

fun validate_item ::
  "lexicon \<Rightarrow> DDL \<Rightarrow> document \<Rightarrow> block \<Rightarrow> validation \<Rightarrow> item \<Rightarrow> validation" where
  "validate_item L d c b st (Value tag v) =
     (case DDL_find d tag of
        None \<Rightarrow> add_unknown tag st
      | Some dict_block \<Rightarrow>
          if version d = 1 then
            (let tc = from_block1 L dict_block (TypeCheckDDL1_new L);
                 st1 = (if is_list1 tc = Yes
                        then cif_fail c b (Value tag v) (tag @ '' must be a list'') st else st)
             in check_value (validate_value1 L tc) c b (Value tag v) v st1)
          else
            (let tc = from_block2 L dict_block (TypeCheckDDL2_new L)
             in check_value (validate_value2 L tc) c b (Value tag v) v st))"
| "validate_item L d c b st (Loop ts vs) =
     foldl (validate_column L d c b (Loop ts vs)) st [0..<length ts]"
| "validate_item L d c b st (Frame f) = st"

definition validate_block :: "lexicon \<Rightarrow> DDL \<Rightarrow> document \<Rightarrow> validation \<Rightarrow> block \<Rightarrow> validation" where
  "validate_block L d c st b = foldl (validate_item L d c b) st (items b)"

text \<open>
  \<^verbatim>\<open>DDL::validate\<close> returns nothing; the model returns what it has done: the failures
  reported, the unknown tags collected and the last message. Container sizes and
  indices (\<^verbatim>\<open>size_t\<close>, and the \<^verbatim>\<open>int\<close> column count and index) are natural numbers.
\<close>

definition validate :: "lexicon \<Rightarrow> DDL \<Rightarrow> document \<Rightarrow> string list option \<Rightarrow> validation" where
  "validate L d c ut =
     foldl (validate_block L d c) \<lparr>failures = [], unknown_tags = ut, msg = []\<rparr> (blocks c)"

section \<open>The streaming search of \<^verbatim>\<open>grep.cpp\<close>\<close>

text \<open>
  \<^verbatim>\<open>struct Parameters\<close>; a C++ \<^verbatim>\<open>int\<close> is a 32-bit word, read as two's complement
  by \<open>sint\<close>. The search prints to standard output, which the model carries along
  with the parameters as the text printed so far.
\<close>

record Parameters =
  search_tag :: string
  max_count :: "32 word"
  with_filename :: bool
  with_blockname :: bool
  with_tag :: bool
  summarize :: bool
  only_filenames :: bool
  inverse :: bool
  print_count :: bool
  path :: string
  block_name :: string
  match_value :: bool
  match_column :: "32 word"
  table_width :: "32 word"
  column :: "32 word"
  counter :: "32 word"

record search_state = Parameters +
  stdout :: string

text \<open>The default member initialisers of \<^verbatim>\<open>Parameters\<close>, with nothing printed yet.\<close>

definition Parameters_new :: search_state where
  "Parameters_new =
     \<lparr>search_tag = [], max_count = 10, with_filename = False, with_blockname = True,
      with_tag = False, summarize = False, only_filenames = False, inverse = False,
      print_count = False, path = [], block_name = [], match_value = False,
      match_column = - 1, table_width = 0, column = 0, counter = 0, stdout = []\<rparr>"

definition printf :: "string \<Rightarrow> search_state \<Rightarrow> search_state" where
  "printf text p = p\<lparr>stdout := stdout p @ text\<rparr>"

text \<open>The conversion \<^verbatim>\<open>%d\<close> of \<^verbatim>\<open>printf\<close>: a signed decimal numeral.\<close>

fun show_nat :: "nat \<Rightarrow> string" where
  "show_nat n =
     (if n < 10 then [''0123456789'' ! n]
      else show_nat (n div 10) @ [''0123456789'' ! (n mod 10)])"

declare show_nat.simps [simp del]

definition show_int :: "int \<Rightarrow> string" where
  "show_int i = (if i < 0 then ''-'' @ show_nat (nat (- i)) else show_nat (nat i))"

definition process_match :: "string \<Rightarrow> search_state \<Rightarrow> search_state" where
  "process_match val par =
     (if print_count par then par\<lparr>counter := counter par + 1\<rparr>
      else
        (let p1 = (if with_filename par then printf (path par @ '': '') par else par);
             p2 = (if with_blockname p1 then printf (block_name p1 @ '': '') p1 else p1);
             p3 = (if with_tag p2 then printf (''['' @ search_tag p2 @ ''] '') p2 else p2)
         in printf ('' '' @ val @ [CHR 0x0A]) p3))"

definition finish_processing :: "search_state \<Rightarrow> search_state" where
  "finish_processing par =
     (if print_count par then
        (let p1 = (if with_filename par then printf (path par @ '': '') par else par);
             p2 = (if with_blockname p1 then printf (block_name p1 @ '': '') p1 else p1);
             p3 = printf ('' '' @ show_int (sint (counter p2)) @ [CHR 0x0A]) p2
         in p3\<lparr>counter := 0\<rparr>)
      else par)"

text \<open>
  The grammar of \<^verbatim>\<open>cif.hpp\<close> is not among the sources. A parse is the sequence of
  its rule matches, each with the matched text, in the order the actions are applied;
  \<open>M_other\<close> is a match of any rule for which \<^verbatim>\<open>Search\<close> is not specialised.
\<close>

datatype rule_match =
    M_datablockname string
  | M_str_global
  | M_tag string
  | M_value string
  | M_str_loop
  | M_loop_tag string
  | M_loop_end
  | M_loop_value string
  | M_other

fun Search_apply :: "lexicon \<Rightarrow> rule_match \<Rightarrow> search_state \<Rightarrow> search_state" where
  "Search_apply L (M_datablockname s) p = p\<lparr>block_name := s\<rparr>"
| "Search_apply L M_str_global p = p\<lparr>block_name := ''global_''\<rparr>"
| "Search_apply L (M_tag s) p =
     (if search_tag p = s then p\<lparr>match_value := True\<rparr> else p)"
| "Search_apply L (M_value s) p =
     (if match_value p then
        (finish_processing (process_match (as_string L s) p))\<lparr>match_value := False\<rparr>
      else p)"
| "Search_apply L M_str_loop p = p\<lparr>table_width := 0\<rparr>"
| "Search_apply L (M_loop_tag s) p =
     (let p1 = (if search_tag p = s then p\<lparr>match_column := table_width p, column := 0\<rparr> else p)
      in p1\<lparr>table_width := table_width p1 + 1\<rparr>)"
| "Search_apply L M_loop_end p =
     (if match_column p \<noteq> - 1 then (finish_processing p)\<lparr>match_column := - 1\<rparr> else p)"
| "Search_apply L (M_loop_value s) p =
     (if match_column p \<noteq> - 1 then
        (let p1 = (if column p = match_column p then process_match (as_string L s) p else p);
             p2 = p1\<lparr>column := column p1 + 1\<rparr>
         in if column p2 = table_width p2 then p2\<lparr>column := 0\<rparr> else p2)
      else p)"
| "Search_apply L M_other p = p"

text \<open>\<^verbatim>\<open>pegtl::parse<rules::file, Search, cif::Errors>(in, par)\<close> over a parse.\<close>

definition parse :: "lexicon \<Rightarrow> rule_match list \<Rightarrow> search_state \<Rightarrow> search_state" where
  "parse L ms par = foldl (\<lambda>p m. Search_apply L m p) par ms"

text \<open>\<^verbatim>\<open>grep_file\<close>, for the parse \<open>ms\<close> of the file at \<open>file_path\<close>.\<close>

definition grep_file ::
  "lexicon \<Rightarrow> string \<Rightarrow> string \<Rightarrow> rule_match list \<Rightarrow> search_state \<Rightarrow> search_state" where
  "grep_file L tag file_path ms par =
     parse L ms (par\<lparr>search_tag := tag, path := file_path\<rparr>)"

section \<open>Definitions used to state and to evaluate the properties\<close>

text \<open>
  An instance of the lexicon parameters, for evaluating the model on concrete inputs:
  values are taken unquoted as they stand, and the numbers are the unsigned decimal
  integers; anything else converts to not-a-number.
\<close>

definition is_digits :: "string \<Rightarrow> bool" where
  "is_digits s = (s \<noteq> [] \<and> set s \<subseteq> set ''0123456789'')"

definition digits_value :: "string \<Rightarrow> nat" where
  "digits_value s = foldl (\<lambda>n ch. 10 * n + (of_char ch - 48)) 0 s"

definition plain_lexicon :: lexicon where
  "plain_lexicon =
     \<lparr>as_string = (\<lambda>s. s), is_numb = is_digits,
      as_number = (\<lambda>s. if is_digits s then Finite (real (digits_value s)) else NaN),
      indet_low = Finite 0, indet_high = Finite 0\<rparr>"

text \<open>
  The names under which \<^verbatim>\<open>add_to_index\<close> offers a block to the index: the scalar
  value of the name tag if there is one, else the values of the name tag in loops.
\<close>

definition defined_names :: "lexicon \<Rightarrow> block \<Rightarrow> string \<Rightarrow> string list" where
  "defined_names L b name_tag =
     (case find_value b name_tag of
        Some nm \<Rightarrow> [as_string L nm]
      | None \<Rightarrow> map (as_string L) (find_loop b name_tag))"

text \<open>The save frames of a document, in the order in which \<^verbatim>\<open>read_ddl2\<close> meets them.\<close>

fun frames_of_items :: "item list \<Rightarrow> block list" where
  "frames_of_items [] = []"
| "frames_of_items (Frame f # rest) = f # frames_of_items rest"
| "frames_of_items (Value t v # rest) = frames_of_items rest"
| "frames_of_items (Loop ts vs # rest) = frames_of_items rest"

definition frames_of :: "document \<Rightarrow> block list" where
  "frames_of doc = concat (map (\<lambda>b. frames_of_items (items b)) (blocks doc))"

text \<open>
  A block declares a mismatch when it declares a conformance \<^verbatim>\<open>dict_name\<close> that
  differs from the dictionary's name, or a matching \<^verbatim>\<open>dict_name\<close> together with a
  \<^verbatim>\<open>dict_version\<close> that differs from the dictionary's version; \<open>mismatch_message\<close>
  is the message for such a block.
\<close>

definition declares_mismatch :: "lexicon \<Rightarrow> DDL \<Rightarrow> block \<Rightarrow> bool" where
  "declares_mismatch L d b =
     (case find_value b (''_audit_conform'' @ sep d @ ''dict_name'') of
        None \<Rightarrow> False
      | Some dname \<Rightarrow>
          as_string L dname \<noteq> dict_name d
          \<or> (as_string L dname = dict_name d
              \<and> (case find_value b (''_audit_conform'' @ sep d @ ''dict_version'') of
                    None \<Rightarrow> False
                  | Some dver \<Rightarrow> as_string L dver \<noteq> dict_version d)))"

definition mismatch_message :: "lexicon \<Rightarrow> DDL \<Rightarrow> block \<Rightarrow> string" where
  "mismatch_message L d b =
     (let nm = as_string L (the (find_value b (''_audit_conform'' @ sep d @ ''dict_name'')))
      in if nm \<noteq> dict_name d
         then ''Dictionary name mismatch: '' @ nm @ '' vs '' @ dict_name d
         else ''CIF conforms to '' @ nm @ '' ver. ''
              @ as_string L (the (find_value b (''_audit_conform'' @ sep d @ ''dict_version'')))
              @ '' while DDL has ver. '' @ dict_version d)"

text \<open>
  A small DDL1 dictionary in the style of the core CIF dictionary, and the \<^verbatim>\<open>DDL\<close>
  loaded from it, for evaluating the model on concrete inputs.
\<close>

definition core_dictionary :: document where
  "core_dictionary =
     \<lparr>blocks = [Block ''on_this_dictionary''
                  [Value ''_dictionary_name'' ''cif_core.dic'',
                   Value ''_dictionary_version'' ''2.4''],
                Block ''cell_length_a''
                  [Value ''_name'' ''_cell_length_a'', Value ''_type'' ''numb'',
                   Value ''_enumeration_range'' ''1:5''],
                Block ''symmetry_cell_setting''
                  [Value ''_name'' ''_symmetry_cell_setting'', Value ''_type'' ''char'',
                   Value ''_list'' ''no'',
                   Loop [''_enumeration''] [''triclinic'', ''monoclinic'']],
                Block ''atom_site_label''
                  [Value ''_name'' ''_atom_site_label'', Value ''_list'' ''yes'']]\<rparr>"

definition core_ddl :: DDL where
  "core_ddl = open_file plain_lexicon core_dictionary (DDL_new 0)"

text \<open>
  The state in which \<^verbatim>\<open>validate\<close> starts when no list for unknown tags is passed, and
  the failures that the check of one value, of a loop column and of an item report
  when run from it.
\<close>

definition no_failures :: validation where
  "no_failures = \<lparr>failures = [], unknown_tags = None, msg = []\<rparr>"

definition value_failures ::
  "(string \<Rightarrow> string option \<Rightarrow> bool \<times> string option) \<Rightarrow>
   document \<Rightarrow> block \<Rightarrow> item \<Rightarrow> string \<Rightarrow> (block \<times> item \<times> string) list" where
  "value_failures vv c b it v = failures (check_value vv c b it v no_failures)"

definition column_failures ::
  "lexicon \<Rightarrow> DDL \<Rightarrow> document \<Rightarrow> block \<Rightarrow> item \<Rightarrow> nat \<Rightarrow> (block \<times> item \<times> string) list" where
  "column_failures L d c b it i = failures (validate_column L d c b it no_failures i)"

definition item_failures ::
  "lexicon \<Rightarrow> DDL \<Rightarrow> document \<Rightarrow> block \<Rightarrow> item \<Rightarrow> (block \<times> item \<times> string) list" where
  "item_failures L d c b it = failures (validate_item L d c b no_failures it)"

text \<open>
  The positions \<open>j, j + ncol, j + 2 * ncol, \<dots>\<close> below \<open>n\<close>: the cells of one column
  in the flat value sequence of a loop.
\<close>

function column_cells :: "nat \<Rightarrow> nat \<Rightarrow> nat \<Rightarrow> nat list" where
  "column_cells n ncol j =
     (if j < n \<and> 0 < ncol then j # column_cells n ncol (j + ncol) else [])"
  by pat_completeness auto
termination
  by (relation "measure (\<lambda>(n, ncol, j). n - j)") auto

declare column_cells.simps [simp del]

text \<open>
  A value check reports afresh when neither its verdict nor the message of a
  rejection depends on what the message string held before.
\<close>

definition reports_afresh :: "(string \<Rightarrow> string option \<Rightarrow> bool \<times> string option) \<Rightarrow> bool" where
  "reports_afresh vv =
     (\<forall>v. (\<forall>m. vv v (Some m) = (True, Some m)) \<or> (\<exists>t. \<forall>m. vv v (Some m) = (False, Some t)))"

text \<open>A subject document with two blocks, for evaluating \<^verbatim>\<open>validate\<close>.\<close>

definition subject_loop :: item where
  "subject_loop = Loop [''_symmetry_cell_setting'', ''_atom_site_label'']
                       [''cubic'', ''C1'', ''triclinic'', ''C2'']"

definition subject_first :: block where
  "subject_first = Block ''first''
     [Value ''_cell_length_a'' ''9'', Value ''_atom_site_label'' ''C1'', subject_loop]"

definition subject_second :: block where
  "subject_second = Block ''second''
     [Value ''_cell_length_a'' ''abc'', Value ''_unknown'' ''1'']"

definition subject_document :: document where
  "subject_document = \<lparr>blocks = [subject_first, subject_second]\<rparr>"

text \<open>The text that \<^verbatim>\<open>process_match\<close> prints for one match when values are printed.\<close>

definition match_text :: "string \<Rightarrow> search_state \<Rightarrow> string" where
  "match_text val p =
     (if with_filename p then path p @ '': '' else [])
     @ (if with_blockname p then block_name p @ '': '' else [])
     @ (if with_tag p then ''['' @ search_tag p @ ''] '' else [])
     @ '' '' @ val @ [CHR 0x0A]"

text \<open>
  Modelled from the spec: the grammar of \<^verbatim>\<open>cif.hpp\<close> is not among the sources. The
  actions are invoked for every production match in left-to-right order: a data block
  name or the \<^verbatim>\<open>global_\<close> keyword; a tag followed by its scalar value; a loop, that is
  the loop start, one loop tag per declared column, one loop value per table cell and
  the loop end; anything else (frame markers) is a match of a rule without a search
  action. A file that does not have this shape fails with a syntax error, which ends
  the run.
\<close>

datatype production =
    P_datablock string
  | P_global
  | P_dataitem string string
  | P_loop "string list" "string list"
  | P_other

fun matches_of :: "production \<Rightarrow> rule_match list" where
  "matches_of (P_datablock nm) = [M_datablockname nm]"
| "matches_of P_global = [M_str_global]"
| "matches_of (P_dataitem t v) = [M_tag t, M_value v]"
| "matches_of (P_loop ts vs) =
     [M_str_loop] @ map M_loop_tag ts @ map M_loop_value vs @ [M_loop_end]"
| "matches_of P_other = [M_other]"

definition file_matches :: "production list \<Rightarrow> rule_match list" where
  "file_matches ps = concat (map matches_of ps)"

text \<open>
  No match is pending: the state of the working fields between two productions, and
  the weaker states inside a loop, after its tags and among its values.
\<close>

definition idle :: "search_state \<Rightarrow> bool" where
  "idle p = (\<not> match_value p \<and> match_column p = - 1 \<and> counter p = 0)"

definition in_loop_tags :: "search_state \<Rightarrow> bool" where
  "in_loop_tags p = (\<not> match_value p \<and> counter p = 0)"

definition in_loop_values :: "search_state \<Rightarrow> bool" where
  "in_loop_values p =
     (\<not> match_value p \<and> (match_column p \<noteq> - 1 \<or> counter p = 0)
      \<and> (print_count p \<or> counter p = 0))"

section \<open>Loading a dictionary: the index and the dialect\<close>

lemma emplace_apply:
  "emplace m k b k' = (case m k' of Some x \<Rightarrow> Some x | None \<Rightarrow> if k' = k then Some b else None)"
  by (simp add: emplace_def split: option.splits)

lemma emplace_fold_index:
  "name_index (foldl (\<lambda>s n. s\<lparr>name_index := emplace (name_index s) (f n) b\<rparr>) d ns) k
     = (case name_index d k of Some x \<Rightarrow> Some x
        | None \<Rightarrow> if k \<in> f ` set ns then Some b else None)"
  by (induction ns arbitrary: d) (auto simp: emplace_apply split: option.splits)

lemma emplace_fold_frame:
  "version (foldl (\<lambda>s n. s\<lparr>name_index := emplace (name_index s) (f n) b\<rparr>) d ns) = version d
   \<and> sep (foldl (\<lambda>s n. s\<lparr>name_index := emplace (name_index s) (f n) b\<rparr>) d ns) = sep d
   \<and> ddl (foldl (\<lambda>s n. s\<lparr>name_index := emplace (name_index s) (f n) b\<rparr>) d ns) = ddl d"
  by (induction ns arbitrary: d) simp_all

lemma add_to_index_index:
  "name_index (add_to_index L b t d) k
     = (case name_index d k of Some x \<Rightarrow> Some x
        | None \<Rightarrow> if k \<in> set (defined_names L b t) then Some b else None)"
  by (auto simp: add_to_index_def defined_names_def emplace_fold_index emplace_apply
           split: option.splits)

lemma add_to_index_frame:
  "version (add_to_index L b t d) = version d \<and> sep (add_to_index L b t d) = sep d
   \<and> ddl (add_to_index L b t d) = ddl d"
  by (simp add: add_to_index_def emplace_fold_frame split: option.splits)

lemma read_ddl1_block_index:
  "name_index (read_ddl1_block L d b) k
     = (case name_index d k of Some x \<Rightarrow> Some x
        | None \<Rightarrow> if k \<in> set (defined_names L b ''_name'') then Some b else None)"
  by (simp add: read_ddl1_block_def Let_def add_to_index_index split: option.splits)

lemma read_ddl1_block_frame:
  "version (read_ddl1_block L d b) = version d \<and> sep (read_ddl1_block L d b) = sep d
   \<and> ddl (read_ddl1_block L d b) = ddl d"
  by (simp add: read_ddl1_block_def Let_def add_to_index_frame split: option.splits)

lemma read_ddl1_fold_index:
  "name_index (foldl (read_ddl1_block L) d bs) k
     = (case name_index d k of Some x \<Rightarrow> Some x
        | None \<Rightarrow> find (\<lambda>b. k \<in> set (defined_names L b ''_name'')) bs)"
  by (induction bs arbitrary: d) (simp_all add: read_ddl1_block_index split: option.splits)

lemma read_ddl1_fold_frame:
  "version (foldl (read_ddl1_block L) d bs) = version d
   \<and> sep (foldl (read_ddl1_block L) d bs) = sep d"
  by (induction bs arbitrary: d) (simp_all add: read_ddl1_block_frame)

lemma read_ddl2_item_frame:
  "version (read_ddl2_item L d it) = version d \<and> sep (read_ddl2_item L d it) = sep d"
  by (cases it) (simp_all add: add_to_index_frame)

lemma read_ddl2_items_frame:
  "version (foldl (read_ddl2_item L) d its) = version d
   \<and> sep (foldl (read_ddl2_item L) d its) = sep d"
  by (induction its arbitrary: d) (simp_all add: read_ddl2_item_frame)

lemma read_ddl2_blocks_frame:
  "version (foldl (\<lambda>s blk. foldl (read_ddl2_item L) s (items blk)) d bs) = version d
   \<and> sep (foldl (\<lambda>s blk. foldl (read_ddl2_item L) s (items blk)) d bs) = sep d"
  by (induction bs arbitrary: d) (simp_all add: read_ddl2_items_frame)

lemma read_ddl2_item_index:
  "name_index (read_ddl2_item L d it) k
     = (case name_index d k of Some x \<Rightarrow> Some x
        | None \<Rightarrow> find (\<lambda>f. k \<in> set (defined_names L f ''_item.name'')) (frames_of_items [it]))"
  by (cases it) (simp_all add: add_to_index_index split: option.splits)

lemma frames_of_items_append:
  "frames_of_items (xs @ ys) = frames_of_items xs @ frames_of_items ys"
  by (induction xs rule: frames_of_items.induct) simp_all

lemma find_append:
  "find P (xs @ ys) = (case find P xs of Some x \<Rightarrow> Some x | None \<Rightarrow> find P ys)"
  by (induction xs) simp_all

lemma read_ddl2_items_index:
  "name_index (foldl (read_ddl2_item L) d its) k
     = (case name_index d k of Some x \<Rightarrow> Some x
        | None \<Rightarrow> find (\<lambda>f. k \<in> set (defined_names L f ''_item.name'')) (frames_of_items its))"
proof (induction its arbitrary: d)
  case Nil
  then show ?case by (simp split: option.splits)
next
  case (Cons it its)
  have "frames_of_items (it # its) = frames_of_items [it] @ frames_of_items its"
    using frames_of_items_append [of "[it]" its] by simp
  then show ?case
    by (simp add: Cons.IH read_ddl2_item_index find_append split: option.splits)
qed

lemma read_ddl2_blocks_index:
  "name_index (foldl (\<lambda>s blk. foldl (read_ddl2_item L) s (items blk)) d bs) k
     = (case name_index d k of Some x \<Rightarrow> Some x
        | None \<Rightarrow> find (\<lambda>f. k \<in> set (defined_names L f ''_item.name''))
                    (concat (map (\<lambda>b. frames_of_items (items b)) bs)))"
  by (induction bs arbitrary: d)
     (simp_all add: read_ddl2_items_index find_append split: option.splits)

lemma open_file_version:
  "version (open_file L doc d) = (if 1 < length (blocks doc) then 1 else 2)"
  by (simp add: open_file_def Let_def read_ddl1_def read_ddl2_def
        read_ddl1_fold_frame read_ddl2_blocks_frame)

lemma open_file_sep:
  "sep (open_file L doc d) = (if 1 < length (blocks doc) then ''_'' else ''.'')"
  by (simp add: open_file_def Let_def read_ddl1_def read_ddl2_def
        read_ddl1_fold_frame read_ddl2_blocks_frame)

text \<open>
  Claim C5, amended. After \<^verbatim>\<open>open_file\<close> the dialect is DDL1 exactly when the
  document has more than one block, and DDL2 otherwise, that is for one block and also
  for none. The separator is \<^verbatim>\<open>_\<close> for DDL1 and \<^verbatim>\<open>.\<close> for DDL2, and the conformance
  lookups of \<^verbatim>\<open>check_audit_conform\<close> are made under \<^verbatim>\<open>_audit_conform_\<close> and
  \<^verbatim>\<open>_audit_conform.\<close> accordingly.
\<close>

theorem open_file_dialect:
  "(version (open_file L doc d) = 1 \<longleftrightarrow> 1 < length (blocks doc))
   \<and> (version (open_file L doc d) = 2 \<longleftrightarrow> length (blocks doc) \<le> 1)
   \<and> (sep (open_file L doc d) = ''_'' \<longleftrightarrow> version (open_file L doc d) = 1)
   \<and> (sep (open_file L doc d) = ''.'' \<longleftrightarrow> version (open_file L doc d) = 2)
   \<and> check_audit_conform L (open_file L doc d) c pmsg
       = check_audit_conform_blocks L (open_file L doc d)
           (if 1 < length (blocks doc) then ''_audit_conform_'' else ''_audit_conform.'')
           (blocks c) pmsg"
  by (simp add: open_file_version open_file_sep check_audit_conform_def)

text \<open>
  Claim C5, as stated, fails for a dictionary file without any block: the dialect is
  DDL2 although the document does not have exactly one block.
\<close>

theorem open_file_empty_document_counterexample:
  "version (open_file plain_lexicon \<lparr>blocks = []\<rparr> (DDL_new 0)) = 2
   \<and> length (blocks \<lparr>blocks = []\<rparr>) \<noteq> 1"
  by (simp add: open_file_def read_ddl2_def DDL_new_def)

text \<open>
  Claim C1, amended. The name index built by \<^verbatim>\<open>open_file\<close> on a new \<^verbatim>\<open>DDL\<close> maps a
  name to the first block in document order (DDL1, by \<^verbatim>\<open>_name\<close>) or the first save
  frame (DDL2, by \<^verbatim>\<open>_item.name\<close>) that defines it, and to nothing if none does:
  \<^verbatim>\<open>emplace\<close> keeps an existing entry, so a later duplicate name does not overwrite
  an earlier one.
\<close>

theorem index_first_definition_wins:
  "DDL_find (open_file L doc (DDL_new v)) k
     = (if 1 < length (blocks doc)
        then find (\<lambda>b. k \<in> set (defined_names L b ''_name'')) (blocks doc)
        else find (\<lambda>f. k \<in> set (defined_names L f ''_item.name'')) (frames_of doc))"
  by (simp add: DDL_find_def open_file_def Let_def read_ddl1_def read_ddl2_def
        read_ddl1_fold_index read_ddl2_blocks_index frames_of_def DDL_new_def)

text \<open>
  Claim C1, as stated, fails: of two DDL1 blocks that define the same name, the index
  holds the first, not the later one.
\<close>

theorem index_last_wins_counterexample:
  "DDL_find (open_file plain_lexicon
       \<lparr>blocks = [Block ''first'' [Value ''_name'' ''_cell_length''],
                  Block ''second'' [Value ''_name'' ''_cell_length'']]\<rparr> (DDL_new 0))
     ''_cell_length''
   = Some (Block ''first'' [Value ''_name'' ''_cell_length''])
   \<and> Block ''first'' [Value ''_name'' ''_cell_length'']
       \<noteq> Block ''second'' [Value ''_name'' ''_cell_length'']"
  by (simp add: DDL_find_def open_file_def Let_def read_ddl1_def read_ddl1_block_def
        add_to_index_def find_value_def emplace_def DDL_new_def plain_lexicon_def)

section \<open>Conformance to the dictionary\<close>

lemma check_audit_conform_blocks_find:
  "check_audit_conform_blocks L d (''_audit_conform'' @ sep d) bs pmsg
     = (case find (declares_mismatch L d) bs of
          Some b \<Rightarrow> (False, assign_msg pmsg (mismatch_message L d b))
        | None \<Rightarrow> (True, assign_msg pmsg
             (''The cif file is missing '' @ (''_audit_conform'' @ sep d) @ ''dict_(name|version)'')))"
proof (induction bs)
  case Nil
  then show ?case by simp
next
  case (Cons b bs)
  show ?case
  proof (cases "declares_mismatch L d b")
    case True
    then show ?thesis
      by (auto simp: declares_mismatch_def mismatch_message_def Let_def split: option.splits)
  next
    case False
    then show ?thesis
      using Cons.IH
      by (auto simp: declares_mismatch_def Let_def split: option.splits)
  qed
qed

lemma find_None_iff_all: "find P xs = None \<longleftrightarrow> (\<forall>x\<in>set xs. \<not> P x)"
  by (induction xs) auto

text \<open>
  Claim C7. \<^verbatim>\<open>check_audit_conform\<close> returns false exactly when some block of the
  document declares a mismatch (a differing \<^verbatim>\<open>dict_name\<close>, or a matching \<^verbatim>\<open>dict_name\<close>
  with a differing \<^verbatim>\<open>dict_version\<close>), and then stores the mismatch message of the first
  such block; when no block declares a \<^verbatim>\<open>dict_name\<close> at all it returns true and stores
  the informational message. Messages are stored when a message string is passed.
\<close>

theorem check_audit_conform_result:
  "check_audit_conform L d c pmsg
     = (case find (declares_mismatch L d) (blocks c) of
          Some b \<Rightarrow> (False, assign_msg pmsg (mismatch_message L d b))
        | None \<Rightarrow> (True, assign_msg pmsg
             (''The cif file is missing _audit_conform'' @ sep d @ ''dict_(name|version)'')))
   \<and> (fst (check_audit_conform L d c pmsg) = False
        \<longleftrightarrow> (\<exists>b\<in>set (blocks c). declares_mismatch L d b))
   \<and> ((\<forall>b\<in>set (blocks c). find_value b (''_audit_conform'' @ sep d @ ''dict_name'') = None)
        \<longrightarrow> check_audit_conform L d c pmsg
            = (True, assign_msg pmsg
                 (''The cif file is missing _audit_conform'' @ sep d @ ''dict_(name|version)'')))"
proof -
  have eq: "check_audit_conform L d c pmsg
     = (case find (declares_mismatch L d) (blocks c) of
          Some b \<Rightarrow> (False, assign_msg pmsg (mismatch_message L d b))
        | None \<Rightarrow> (True, assign_msg pmsg
             (''The cif file is missing _audit_conform'' @ sep d @ ''dict_(name|version)'')))"
    unfolding check_audit_conform_def check_audit_conform_blocks_find
    by (simp split: option.splits)
  have iff: "fst (check_audit_conform L d c pmsg) = False
        \<longleftrightarrow> (\<exists>b\<in>set (blocks c). declares_mismatch L d b)"
    unfolding eq using find_None_iff_all [of "declares_mismatch L d" "blocks c"]
    by (auto split: option.splits)
  have none: "(\<forall>b\<in>set (blocks c). find_value b (''_audit_conform'' @ sep d @ ''dict_name'') = None)
        \<longrightarrow> check_audit_conform L d c pmsg
            = (True, assign_msg pmsg
                 (''The cif file is missing _audit_conform'' @ sep d @ ''dict_(name|version)''))"
  proof
    assume a: "\<forall>b\<in>set (blocks c). find_value b (''_audit_conform'' @ sep d @ ''dict_name'') = None"
    then have "\<forall>b\<in>set (blocks c). \<not> declares_mismatch L d b"
      by (simp add: declares_mismatch_def)
    then have "find (declares_mismatch L d) (blocks c) = None"
      by (simp add: find_None_iff_all)
    then show "check_audit_conform L d c pmsg
            = (True, assign_msg pmsg
                 (''The cif file is missing _audit_conform'' @ sep d @ ''dict_(name|version)''))"
      unfolding eq by simp
  qed
  from eq iff none show ?thesis by blast
qed

lemma core_ddl_fields:
  "version core_ddl = 1" "sep core_ddl = ''_''"
  "dict_name core_ddl = ''cif_core.dic''" "dict_version core_ddl = ''2.4''"
  by (simp_all add: core_ddl_def core_dictionary_def open_file_def Let_def read_ddl1_def
        read_ddl1_block_def add_to_index_def find_value_def find_loop_def DDL_new_def
        plain_lexicon_def)

theorem check_audit_conform_result_witness:
  "(\<exists>b\<in>set (blocks \<lparr>blocks = [Block ''old''
        [Value ''_audit_conform_dict_name'' ''cif_core.dic'',
         Value ''_audit_conform_dict_version'' ''2.3'']]\<rparr>). declares_mismatch plain_lexicon core_ddl b)
   \<and> check_audit_conform plain_lexicon core_ddl
        \<lparr>blocks = [Block ''old''
          [Value ''_audit_conform_dict_name'' ''cif_core.dic'',
           Value ''_audit_conform_dict_version'' ''2.3'']]\<rparr> (Some [])
       = (False, Some ''CIF conforms to cif_core.dic ver. 2.3 while DDL has ver. 2.4'')
   \<and> find_value (Block ''bare'' [Value ''_cell_length_a'' ''5''])
         (''_audit_conform'' @ sep core_ddl @ ''dict_name'') = None
   \<and> check_audit_conform plain_lexicon core_ddl
        \<lparr>blocks = [Block ''bare'' [Value ''_cell_length_a'' ''5'']]\<rparr> (Some [])
       = (True, Some ''The cif file is missing _audit_conform_dict_(name|version)'')"
  using check_audit_conform_result [of plain_lexicon core_ddl
      "\<lparr>blocks = [Block ''old''
          [Value ''_audit_conform_dict_name'' ''cif_core.dic'',
           Value ''_audit_conform_dict_version'' ''2.3'']]\<rparr>" "Some []"]
    check_audit_conform_result [of plain_lexicon core_ddl
      "\<lparr>blocks = [Block ''bare'' [Value ''_cell_length_a'' ''5'']]\<rparr>" "Some []"]
  by (simp add: core_ddl_fields declares_mismatch_def mismatch_message_def find_value_def
        assign_msg_def plain_lexicon_def)

section \<open>Checks of a single value\<close>

lemma float_less_NaN [simp]: "float_less NaN y = False" "float_less x NaN = False"
  by (cases x; simp)+

lemma validate_enumeration_null:
  "is_null v \<Longrightarrow> validate_enumeration L v en pmsg = (True, pmsg)"
  by (simp add: validate_enumeration_def)

lemma validate_value1_null:
  "is_null v \<Longrightarrow> is_numb1 tc \<noteq> Yes \<or> \<not> has_range1 tc \<or> as_number L v = NaN \<Longrightarrow>
   validate_value1 L tc v pmsg = (True, pmsg)"
  by (auto simp: validate_value1_def float_greater_def validate_enumeration_null to_float_def)

text \<open>
  Claim C2. For a null marker (\<^verbatim>\<open>?\<close> or \<^verbatim>\<open>.\<close>) the value checks pass whatever the
  type descriptor is, that is for every declared type, range and enumeration, and
  \<^verbatim>\<open>validate\<close> hands no failure to \<^verbatim>\<open>cif_fail\<close> for the value. The enumeration check
  and with it the whole DDL2 check skip null values explicitly, and so does the DDL1
  type check. The DDL1 range check, made for a numeric type with a range, converts the
  value and compares: a null marker is not a number, and its conversion, not-a-number,
  is neither below nor above any bound; this is the premise on \<^verbatim>\<open>as_number\<close>, needed
  for that check only.
\<close>

theorem null_values_pass:
  assumes "is_null v"
  shows "validate_enumeration L v en pmsg = (True, pmsg)
     \<and> validate_value2 L tc' v pmsg = (True, pmsg)
     \<and> failures (check_value (validate_value2 L tc') c b it v st) = failures st
     \<and> (is_numb1 tc \<noteq> Yes \<or> \<not> has_range1 tc \<or> as_number L v = NaN \<longrightarrow>
          validate_value1 L tc v pmsg = (True, pmsg)
          \<and> failures (check_value (validate_value1 L tc) c b it v st) = failures st)"
  using assms
  by (simp add: validate_value1_null validate_value2_def validate_enumeration_null
        check_value_def)

theorem null_values_pass_witness:
  "is_null ''?'' \<and> as_number plain_lexicon ''?'' = NaN
   \<and> validate_value1 plain_lexicon
        (from_block1 plain_lexicon (Block ''cell_length_a''
            [Value ''_name'' ''_cell_length_a'', Value ''_type'' ''numb'',
             Value ''_enumeration_range'' ''1:5''])
           (TypeCheckDDL1_new plain_lexicon)) ''?'' (Some []) = (True, Some [])
   \<and> is_null ''.'' \<and> as_number plain_lexicon ''.'' = NaN
   \<and> validate_value1 plain_lexicon
        (from_block1 plain_lexicon (Block ''symmetry_cell_setting''
            [Value ''_name'' ''_symmetry_cell_setting'', Value ''_type'' ''numb'',
             Loop [''_enumeration''] [''1'', ''2'']])
           (TypeCheckDDL1_new plain_lexicon)) ''.'' (Some []) = (True, Some [])"
proof -
  have a: "is_null ''?''" and b: "is_null ''.''"
    by (simp_all add: is_null_def)
  have c: "as_number plain_lexicon ''?'' = NaN" and d: "as_number plain_lexicon ''.'' = NaN"
    by (simp_all add: plain_lexicon_def is_digits_def)
  show ?thesis
    using a b c d
      null_values_pass [OF a, where L = plain_lexicon and pmsg = "Some []" and tc =
        "from_block1 plain_lexicon (Block ''cell_length_a''
            [Value ''_name'' ''_cell_length_a'', Value ''_type'' ''numb'',
             Value ''_enumeration_range'' ''1:5''])
           (TypeCheckDDL1_new plain_lexicon)"]
      null_values_pass [OF b, where L = plain_lexicon and pmsg = "Some []" and tc =
        "from_block1 plain_lexicon (Block ''symmetry_cell_setting''
            [Value ''_name'' ''_symmetry_cell_setting'', Value ''_type'' ''numb'',
             Loop [''_enumeration''] [''1'', ''2'']])
           (TypeCheckDDL1_new plain_lexicon)"]
    by simp
qed


lemma load_enumeration1_fields:
  "is_list1 (load_enumeration1 L b tc) = is_list1 tc
   \<and> is_numb1 (load_enumeration1 L b tc) = is_numb1 tc
   \<and> has_range1 (load_enumeration1 L b tc) = has_range1 tc
   \<and> range_low1 (load_enumeration1 L b tc) = range_low1 tc
   \<and> range_high1 (load_enumeration1 L b tc) = range_high1 tc"
proof -
  have "\<And>tc. is_list1 (foldl (\<lambda>t e. t\<lparr>enumeration1 := enumeration1 t @ [as_string L e]\<rparr>) tc es) = is_list1 tc
   \<and> is_numb1 (foldl (\<lambda>t e. t\<lparr>enumeration1 := enumeration1 t @ [as_string L e]\<rparr>) tc es) = is_numb1 tc
   \<and> has_range1 (foldl (\<lambda>t e. t\<lparr>enumeration1 := enumeration1 t @ [as_string L e]\<rparr>) tc es) = has_range1 tc
   \<and> range_low1 (foldl (\<lambda>t e. t\<lparr>enumeration1 := enumeration1 t @ [as_string L e]\<rparr>) tc es) = range_low1 tc
   \<and> range_high1 (foldl (\<lambda>t e. t\<lparr>enumeration1 := enumeration1 t @ [as_string L e]\<rparr>) tc es) = range_high1 tc" for es
    by (induction es) simp_all
  then show ?thesis by (simp add: load_enumeration1_def)
qed





























lemma float_less_infinities [simp]: "float_less z NegInf = False" "float_less PosInf z = False"
  by (cases z; simp)+


lemma to_float_small:
  "to_float (Finite 0) = Finite 0" "to_float (Finite 1) = Finite 1"
  "to_float (Finite 5) = Finite 5" "to_float (Finite 6) = Finite 6"
  "to_float (Finite 9) = Finite 9"
  by (simp_all add: to_float_def round_binary32_def binary_exponent_def pow2_def round_half_even_def
        bit_length.simps Let_def)




section \<open>Validation: every item is checked\<close>

lemma reports_afresh_accept:
  "(\<And>m. vv v (Some m) = (True, Some m)) \<Longrightarrow>
   (\<forall>m. vv v (Some m) = (True, Some m)) \<or> (\<exists>t. \<forall>m. vv v (Some m) = (False, Some t))"
  by blast

lemma reports_afresh_reject:
  "(\<And>m. vv v (Some m) = (False, Some t)) \<Longrightarrow>
   (\<forall>m. vv v (Some m) = (True, Some m)) \<or> (\<exists>t. \<forall>m. vv v (Some m) = (False, Some t))"
  by blast

lemma validate_enumeration_afresh: "reports_afresh (\<lambda>v. validate_enumeration L v en)"
  unfolding reports_afresh_def
proof
  fix v
  show "(\<forall>m. validate_enumeration L v en (Some m) = (True, Some m))
      \<or> (\<exists>t. \<forall>m. validate_enumeration L v en (Some m) = (False, Some t))"
  proof (cases "en = [] \<or> is_null v \<or> as_string L v \<in> set en")
    case True
    then show ?thesis
      by (intro reports_afresh_accept) (simp add: validate_enumeration_def)
  next
    case False
    then show ?thesis
      by (intro reports_afresh_reject) (simp add: validate_enumeration_def assign_msg_def Let_def)
  qed
qed

lemma validate_value2_afresh: "reports_afresh (validate_value2 L tc)"
  using validate_enumeration_afresh [of L "enumeration2 tc"]
  unfolding reports_afresh_def validate_value2_def .

lemma validate_value1_afresh: "reports_afresh (validate_value1 L tc)"
  unfolding reports_afresh_def
proof
  fix v
  have e: "(\<forall>m. validate_enumeration L v (enumeration1 tc) (Some m) = (True, Some m))
        \<or> (\<exists>t. \<forall>m. validate_enumeration L v (enumeration1 tc) (Some m) = (False, Some t))"
    using validate_enumeration_afresh [of L "enumeration1 tc"]
    unfolding reports_afresh_def by simp
  show "(\<forall>m. validate_value1 L tc v (Some m) = (True, Some m))
      \<or> (\<exists>t. \<forall>m. validate_value1 L tc v (Some m) = (False, Some t))"
  proof (cases "is_numb1 tc = Yes \<and> \<not> is_null v \<and> \<not> is_numb L v")
    case True
    then show ?thesis
      by (intro reports_afresh_reject [where t = "''expected number''"])
         (simp add: validate_value1_def assign_msg_def)
  next
    case c1: False
    show ?thesis
    proof (cases "is_numb1 tc = Yes \<and> has_range1 tc
        \<and> (float_less (to_float (as_number L v)) (range_low1 tc)
            \<or> float_greater (to_float (as_number L v)) (range_high1 tc))")
      case True
      with c1 show ?thesis
        by (intro reports_afresh_reject [where t = "''value out of expected range: '' @ v"])
           (auto simp: validate_value1_def assign_msg_def)
    next
      case False
      with c1 have "\<And>pmsg. validate_value1 L tc v pmsg
          = validate_enumeration L v (enumeration1 tc) pmsg"
        by (auto simp: validate_value1_def)
      with e show ?thesis by simp
    qed
  qed
qed

lemma check_value_failures:
  assumes "reports_afresh vv"
  shows "failures (check_value vv c b it v st) = failures st @ value_failures vv c b it v"
proof -
  from assms have "(\<forall>m. vv v (Some m) = (True, Some m)) \<or> (\<exists>t. \<forall>m. vv v (Some m) = (False, Some t))"
    unfolding reports_afresh_def by blast
  then show ?thesis
  proof
    assume "\<forall>m. vv v (Some m) = (True, Some m)"
    then show ?thesis
      by (simp add: check_value_def value_failures_def no_failures_def)
  next
    assume "\<exists>t. \<forall>m. vv v (Some m) = (False, Some t)"
    then obtain t where "\<forall>m. vv v (Some m) = (False, Some t)" ..
    then show ?thesis
      by (simp add: check_value_def value_failures_def no_failures_def cif_fail_def)
  qed
qed

lemma validate_values_failures:
  assumes "reports_afresh vv"
  shows "failures (validate_values vv c b it vals ncol j st)
     = failures st @ concat (map (\<lambda>k. value_failures vv c b it (vals ! k))
                              (column_cells (length vals) ncol j))"
  using assms
proof (induction vv c b it vals ncol j st rule: validate_values.induct)
  case (1 vv c b it vals ncol j st)
  show ?case
  proof (cases "j < length vals \<and> 0 < ncol")
    case True
    have a: "validate_values vv c b it vals ncol j st
        = validate_values vv c b it vals ncol (j + ncol) (check_value vv c b it (vals ! j) st)"
      using True by (subst validate_values.simps) simp
    have b: "column_cells (length vals) ncol j = j # column_cells (length vals) ncol (j + ncol)"
      using True by (subst column_cells.simps) simp
    show ?thesis
      using "1.IH" [OF True "1.prems"]
      by (simp add: a b check_value_failures [OF "1.prems"])
  next
    case False
    have a: "validate_values vv c b it vals ncol j st = st"
      using False by (subst validate_values.simps) auto
    have b: "column_cells (length vals) ncol j = []"
      using False by (subst column_cells.simps) auto
    show ?thesis by (simp add: a b)
  qed
qed

lemma foldl_failures:
  assumes "\<And>st x. failures (f st x) = failures st @ g x"
  shows "failures (foldl f st xs) = failures st @ concat (map g xs)"
  by (induction xs arbitrary: st) (simp_all add: assms)

lemma add_unknown_failures: "failures (add_unknown tag st) = failures st"
  by (simp add: add_unknown_def split: option.splits)

lemma cif_fail_failures: "failures (cif_fail c b it s st) = failures st @ [(b, it, s)]"
  by (simp add: cif_fail_def)

lemma failures_no_failures: "failures no_failures = []"
  by (simp add: no_failures_def)

lemma validate_column_failures:
  "failures (validate_column L d c b it st i) = failures st @ column_failures L d c b it i"
proof (cases "DDL_find d (loop_tags it ! i)")
  case None
  then show ?thesis
    by (simp add: validate_column_def column_failures_def Let_def add_unknown_failures
          failures_no_failures)
next
  case (Some db)
  show ?thesis
  proof (cases "version d = 1")
    case True
    show ?thesis
      unfolding validate_column_def column_failures_def Let_def
      by (simp only: Some True option.case if_True
            validate_values_failures [OF validate_value1_afresh]
            cif_fail_failures failures_no_failures if_distrib [of failures]
            append_Nil append_assoc split: if_split)
         simp
  next
    case False
    show ?thesis
      unfolding validate_column_def column_failures_def Let_def
      by (simp only: Some False option.case if_False
            validate_values_failures [OF validate_value2_afresh]
            failures_no_failures append_Nil)
  qed
qed

lemma validate_item_failures:
  "failures (validate_item L d c b st it) = failures st @ item_failures L d c b it"
proof (cases it)
  case (Value tag v)
  show ?thesis
  proof (cases "DDL_find d tag")
    case None
    then show ?thesis
      by (simp add: Value item_failures_def add_unknown_failures failures_no_failures)
  next
    case (Some db)
    show ?thesis
    proof (cases "version d = 1")
      case True
      show ?thesis
        unfolding Value item_failures_def validate_item.simps Let_def
        by (simp only: Some True option.case if_True
              check_value_failures [OF validate_value1_afresh]
              cif_fail_failures failures_no_failures if_distrib [of failures]
              append_Nil append_assoc split: if_split)
           simp
    next
      case False
      show ?thesis
        unfolding Value item_failures_def validate_item.simps Let_def
        by (simp only: Some False option.case if_False
              check_value_failures [OF validate_value2_afresh]
              failures_no_failures append_Nil)
    qed
  qed
next
  case (Loop ts vs)
  then show ?thesis
    by (simp add: item_failures_def
          foldl_failures [where g = "column_failures L d c b (Loop ts vs)",
            OF validate_column_failures] failures_no_failures)
next
  case (Frame f)
  then show ?thesis by (simp add: item_failures_def failures_no_failures)
qed

lemma item_failures_Loop:
  "item_failures L d c b (Loop ts vs)
     = concat (map (column_failures L d c b (Loop ts vs)) [0..<length ts])"
  by (simp add: item_failures_def
        foldl_failures [where g = "column_failures L d c b (Loop ts vs)",
          OF validate_column_failures] failures_no_failures)

lemma validate_block_failures:
  "failures (validate_block L d c st b)
     = failures st @ concat (map (item_failures L d c b) (items b))"
  unfolding validate_block_def
  by (rule foldl_failures) (rule validate_item_failures)

lemma validate_failures:
  "failures (validate L d c ut)
     = concat (map (\<lambda>b. concat (map (item_failures L d c b) (items b))) (blocks c))"
  unfolding validate_def
  by (simp add: foldl_failures [where g = "\<lambda>b. concat (map (item_failures L d c b) (items b))",
        OF validate_block_failures])

lemma from_block1_is_list:
  "is_list1 (from_block1 L db (TypeCheckDDL1_new L))
     = (if find_value db ''_list'' = Some ''yes'' then Yes
        else if find_value db ''_list'' = Some ''no'' then No else Unset)"
  by (simp add: from_block1_def Let_def load_enumeration1_fields TypeCheckDDL1_new_def
        split: option.splits)

lemma item_failures_Value1:
  assumes "version d = 1" and "DDL_find d tag = Some db"
  shows "item_failures L d c b (Value tag v)
     = (if find_value db ''_list'' = Some ''yes''
        then [(b, Value tag v, tag @ '' must be a list'')] else [])
       @ value_failures (validate_value1 L (from_block1 L db (TypeCheckDDL1_new L)))
           c b (Value tag v) v"
  unfolding item_failures_def validate_item.simps Let_def
  by (simp add: assms check_value_failures [OF validate_value1_afresh]
        cif_fail_failures failures_no_failures from_block1_is_list)

lemma column_failures_1:
  assumes "version d = 1" and "DDL_find d (ts ! i) = Some db"
  shows "column_failures L d c b (Loop ts vs) i
     = (if find_value db ''_list'' = Some ''no''
        then [(b, Loop ts vs, ts ! i @ '' in list'')] else [])
       @ concat (map (\<lambda>k. value_failures
                        (validate_value1 L (from_block1 L db (TypeCheckDDL1_new L)))
                        c b (Loop ts vs) (vs ! k))
                  (column_cells (length vs) (length ts) i))"
  unfolding column_failures_def validate_column_def Let_def
  by (simp add: assms validate_values_failures [OF validate_value1_afresh]
        cif_fail_failures failures_no_failures from_block1_is_list)

lemma item_failures_reported:
  assumes "blk \<in> set (blocks c)" and "it \<in> set (items blk)"
  shows "set (item_failures L d c blk it) \<subseteq> set (failures (validate L d c ut))"
  using assms by (auto simp: validate_failures)

lemma column_failures_reported:
  assumes "blk \<in> set (blocks c)" and "Loop ts vs \<in> set (items blk)" and "i < length ts"
  shows "set (column_failures L d c blk (Loop ts vs) i) \<subseteq> set (failures (validate L d c ut))"
proof -
  have "set (column_failures L d c blk (Loop ts vs) i)
      \<subseteq> set (item_failures L d c blk (Loop ts vs))"
    using assms(3) by (auto simp: item_failures_Loop)
  with item_failures_reported [OF assms(1,2)] show ?thesis by blast
qed

text \<open>
  Claim C3. Under a DDL1 dictionary, for a tag that the index maps to the block \<open>db\<close>:
  where the tag occurs as a scalar item, the failures reported for the item are the
  failure \<^verbatim>\<open>must be a list\<close> exactly if \<open>db\<close> sets \<^verbatim>\<open>_list\<close> to \<^verbatim>\<open>yes\<close>, followed by the
  failure of the value check, if any; where it occurs as column \<open>i\<close> of a loop, the
  failures reported for the column are the failure \<^verbatim>\<open>in list\<close> exactly if \<open>db\<close> sets
  \<^verbatim>\<open>_list\<close> to \<^verbatim>\<open>no\<close>, followed by the failures of the value checks of its cells. So with
  \<^verbatim>\<open>yes\<close> there is no cardinality failure for a column, with \<^verbatim>\<open>no\<close> none for a scalar,
  and with \<^verbatim>\<open>_list\<close> unset none at all. Wherever such an occurrence stands in the
  document, \<^verbatim>\<open>validate\<close> reports its cardinality failure.
\<close>

theorem list_cardinality:
  assumes "version d = 1" and "DDL_find d tag = Some db"
  shows "item_failures L d c b (Value tag v)
         = (if find_value db ''_list'' = Some ''yes''
            then [(b, Value tag v, tag @ '' must be a list'')] else [])
           @ value_failures (validate_value1 L (from_block1 L db (TypeCheckDDL1_new L)))
               c b (Value tag v) v
     \<and> (i < length ts \<and> ts ! i = tag \<longrightarrow>
          column_failures L d c b (Loop ts vs) i
          = (if find_value db ''_list'' = Some ''no''
             then [(b, Loop ts vs, tag @ '' in list'')] else [])
            @ concat (map (\<lambda>k. value_failures
                             (validate_value1 L (from_block1 L db (TypeCheckDDL1_new L)))
                             c b (Loop ts vs) (vs ! k))
                       (column_cells (length vs) (length ts) i)))
     \<and> (b \<in> set (blocks c) \<and> Value tag v \<in> set (items b)
          \<and> find_value db ''_list'' = Some ''yes'' \<longrightarrow>
          (b, Value tag v, tag @ '' must be a list'') \<in> set (failures (validate L d c ut)))
     \<and> (b \<in> set (blocks c) \<and> Loop ts vs \<in> set (items b) \<and> i < length ts \<and> ts ! i = tag
          \<and> find_value db ''_list'' = Some ''no'' \<longrightarrow>
          (b, Loop ts vs, tag @ '' in list'') \<in> set (failures (validate L d c ut)))"
proof (intro conjI impI)
  show s: "item_failures L d c b (Value tag v)
         = (if find_value db ''_list'' = Some ''yes''
            then [(b, Value tag v, tag @ '' must be a list'')] else [])
           @ value_failures (validate_value1 L (from_block1 L db (TypeCheckDDL1_new L)))
               c b (Value tag v) v"
    by (rule item_failures_Value1 [OF assms])
  show "column_failures L d c b (Loop ts vs) i
          = (if find_value db ''_list'' = Some ''no''
             then [(b, Loop ts vs, tag @ '' in list'')] else [])
            @ concat (map (\<lambda>k. value_failures
                             (validate_value1 L (from_block1 L db (TypeCheckDDL1_new L)))
                             c b (Loop ts vs) (vs ! k))
                       (column_cells (length vs) (length ts) i))"
    if "i < length ts \<and> ts ! i = tag"
    using column_failures_1 [of d ts i db L c b vs] assms that by simp
  show "(b, Value tag v, tag @ '' must be a list'') \<in> set (failures (validate L d c ut))"
    if h: "b \<in> set (blocks c) \<and> Value tag v \<in> set (items b)
          \<and> find_value db ''_list'' = Some ''yes''"
  proof -
    have "(b, Value tag v, tag @ '' must be a list'') \<in> set (item_failures L d c b (Value tag v))"
      using h by (simp add: s)
    with item_failures_reported [of b c "Value tag v" L d ut] h show ?thesis by blast
  qed
  show "(b, Loop ts vs, tag @ '' in list'') \<in> set (failures (validate L d c ut))"
    if h: "b \<in> set (blocks c) \<and> Loop ts vs \<in> set (items b) \<and> i < length ts \<and> ts ! i = tag
          \<and> find_value db ''_list'' = Some ''no''"
  proof -
    have "(b, Loop ts vs, tag @ '' in list'') \<in> set (column_failures L d c b (Loop ts vs) i)"
      using column_failures_1 [of d ts i db L c b vs] assms h by simp
    with column_failures_reported [of b c ts vs i L d ut] h show ?thesis by blast
  qed
qed

text \<open>
  Claim C6. The failures that \<^verbatim>\<open>validate\<close> reports for a document are the failures of
  every item of every block, in document order, each item reporting what it reports
  when validated alone; the failures of a loop are those of every one of its columns.
  Failures reported earlier change nothing in the validation of a later item or
  block: they stay in the report and the later failures are added after them.
\<close>

theorem validate_visits_every_item:
  "failures (validate L d c ut)
     = concat (map (\<lambda>b. concat (map (item_failures L d c b) (items b))) (blocks c))
   \<and> item_failures L d c b (Loop ts vs)
     = concat (map (column_failures L d c b (Loop ts vs)) [0..<length ts])
   \<and> failures (validate_item L d c b st it) = failures st @ item_failures L d c b it
   \<and> failures (validate_block L d c st b)
     = failures st @ concat (map (item_failures L d c b) (items b))"
  by (simp add: validate_failures item_failures_Loop validate_item_failures
        validate_block_failures)

lemma core_ddl_find:
  "DDL_find core_ddl ''_cell_length_a''
     = Some (Block ''cell_length_a''
              [Value ''_name'' ''_cell_length_a'', Value ''_type'' ''numb'',
               Value ''_enumeration_range'' ''1:5''])"
  "DDL_find core_ddl ''_symmetry_cell_setting''
     = Some (Block ''symmetry_cell_setting''
              [Value ''_name'' ''_symmetry_cell_setting'', Value ''_type'' ''char'',
               Value ''_list'' ''no'',
               Loop [''_enumeration''] [''triclinic'', ''monoclinic'']])"
  "DDL_find core_ddl ''_atom_site_label''
     = Some (Block ''atom_site_label''
              [Value ''_name'' ''_atom_site_label'', Value ''_list'' ''yes''])"
  "DDL_find core_ddl ''_unknown'' = None"
  by (simp_all add: DDL_find_def core_ddl_def core_dictionary_def open_file_def Let_def
        read_ddl1_def read_ddl1_block_def add_to_index_def find_value_def find_loop_def
        emplace_def DDL_new_def plain_lexicon_def)

lemma subject_item_failures:
  "item_failures plain_lexicon core_ddl subject_document subject_first
      (Value ''_cell_length_a'' ''9'')
     = [(subject_first, Value ''_cell_length_a'' ''9'', ''value out of expected range: 9'')]"
  "item_failures plain_lexicon core_ddl subject_document subject_first
      (Value ''_atom_site_label'' ''C1'')
     = [(subject_first, Value ''_atom_site_label'' ''C1'', ''_atom_site_label must be a list'')]"
  "item_failures plain_lexicon core_ddl subject_document subject_second
      (Value ''_cell_length_a'' ''abc'')
     = [(subject_second, Value ''_cell_length_a'' ''abc'', ''expected number'')]"
  "item_failures plain_lexicon core_ddl subject_document subject_second
      (Value ''_unknown'' ''1'') = []"
  by (simp_all add: item_failures_def core_ddl_find core_ddl_fields Let_def
        from_block1_def load_enumeration1_def TypeCheckDDL1_new_def find_value_def
        find_loop_def check_value_def validate_value1_def validate_enumeration_def
        float_greater_def cif_fail_def add_unknown_def assign_msg_def is_null_def
        no_failures_def plain_lexicon_def is_digits_def digits_value_def to_float_small)

lemma subject_loop_failures:
  "item_failures plain_lexicon core_ddl subject_document subject_first subject_loop
     = [(subject_first, subject_loop, ''_symmetry_cell_setting in list''),
        (subject_first, subject_loop,
         [CHR 0x27] @ ''cubic'' @ [CHR 0x27] @ '' is not one of: triclinic, monoclinic.'')]"
proof -
  have u: "[0..<2] = [0, 1]" by (simp add: upt_rec)
  show ?thesis
    unfolding subject_loop_def item_failures_Loop
    by (simp add: u column_failures_def validate_column_def core_ddl_find core_ddl_fields Let_def
        from_block1_def load_enumeration1_def TypeCheckDDL1_new_def find_value_def
        find_loop_def loop_column_def upt_rec validate_values.simps
        check_value_def validate_value1_def validate_enumeration_def
        float_greater_def cif_fail_def add_unknown_def assign_msg_def is_null_def
        no_failures_def plain_lexicon_def is_digits_def digits_value_def)
qed

theorem validate_visits_every_item_witness:
  "failures (validate plain_lexicon core_ddl subject_document None)
     = [(subject_first, Value ''_cell_length_a'' ''9'', ''value out of expected range: 9''),
        (subject_first, Value ''_atom_site_label'' ''C1'', ''_atom_site_label must be a list''),
        (subject_first, subject_loop, ''_symmetry_cell_setting in list''),
        (subject_first, subject_loop,
         [CHR 0x27] @ ''cubic'' @ [CHR 0x27] @ '' is not one of: triclinic, monoclinic.''),
        (subject_second, Value ''_cell_length_a'' ''abc'', ''expected number'')]"
proof -
  have "failures (validate plain_lexicon core_ddl subject_document None)
     = concat (map (\<lambda>b. concat (map (item_failures plain_lexicon core_ddl subject_document b)
                                    (items b))) (blocks subject_document))"
    using validate_visits_every_item [of plain_lexicon core_ddl subject_document None]
    by simp
  also have "\<dots> = item_failures plain_lexicon core_ddl subject_document subject_first
                    (Value ''_cell_length_a'' ''9'')
      @ item_failures plain_lexicon core_ddl subject_document subject_first
                    (Value ''_atom_site_label'' ''C1'')
      @ item_failures plain_lexicon core_ddl subject_document subject_first subject_loop
      @ item_failures plain_lexicon core_ddl subject_document subject_second
                    (Value ''_cell_length_a'' ''abc'')
      @ item_failures plain_lexicon core_ddl subject_document subject_second
                    (Value ''_unknown'' ''1'')"
    by (simp add: subject_document_def subject_first_def subject_second_def)
  finally show ?thesis
    by (simp add: subject_item_failures subject_loop_failures)
qed

theorem list_cardinality_witness:
  "version core_ddl = 1
   \<and> DDL_find core_ddl ''_atom_site_label''
       = Some (Block ''atom_site_label''
                [Value ''_name'' ''_atom_site_label'', Value ''_list'' ''yes''])
   \<and> find_value (Block ''atom_site_label''
                [Value ''_name'' ''_atom_site_label'', Value ''_list'' ''yes'']) ''_list''
       = Some ''yes''
   \<and> subject_first \<in> set (blocks subject_document)
   \<and> Value ''_atom_site_label'' ''C1'' \<in> set (items subject_first)
   \<and> (subject_first, Value ''_atom_site_label'' ''C1'', ''_atom_site_label must be a list'')
       \<in> set (failures (validate plain_lexicon core_ddl subject_document None))
   \<and> column_failures plain_lexicon core_ddl subject_document subject_first
        (Loop [''_symmetry_cell_setting'', ''_atom_site_label'']
              [''cubic'', ''C1'', ''triclinic'', ''C2'']) 1 = []
   \<and> DDL_find core_ddl ''_symmetry_cell_setting''
       = Some (Block ''symmetry_cell_setting''
                [Value ''_name'' ''_symmetry_cell_setting'', Value ''_type'' ''char'',
                 Value ''_list'' ''no'',
                 Loop [''_enumeration''] [''triclinic'', ''monoclinic'']])
   \<and> find_value (Block ''symmetry_cell_setting''
                [Value ''_name'' ''_symmetry_cell_setting'', Value ''_type'' ''char'',
                 Value ''_list'' ''no'',
                 Loop [''_enumeration''] [''triclinic'', ''monoclinic'']]) ''_list''
       = Some ''no''
   \<and> Loop [''_symmetry_cell_setting'', ''_atom_site_label'']
            [''cubic'', ''C1'', ''triclinic'', ''C2''] \<in> set (items subject_first)
   \<and> (subject_first,
        Loop [''_symmetry_cell_setting'', ''_atom_site_label'']
             [''cubic'', ''C1'', ''triclinic'', ''C2''],
        ''_symmetry_cell_setting in list'')
       \<in> set (failures (validate plain_lexicon core_ddl subject_document None))
   \<and> item_failures plain_lexicon core_ddl subject_document subject_first
        (Value ''_symmetry_cell_setting'' ''triclinic'') = []"
proof -
  let ?ts = "[''_symmetry_cell_setting'', ''_atom_site_label'']"
  let ?vs = "[''cubic'', ''C1'', ''triclinic'', ''C2'']"
  have m: "subject_first \<in> set (blocks subject_document)"
    "Value ''_atom_site_label'' ''C1'' \<in> set (items subject_first)"
    "Loop ?ts ?vs \<in> set (items subject_first)"
    by (simp_all add: subject_document_def subject_first_def subject_loop_def)
  have l: "find_value (Block ''atom_site_label''
                [Value ''_name'' ''_atom_site_label'', Value ''_list'' ''yes'']) ''_list''
       = Some ''yes''"
    "find_value (Block ''symmetry_cell_setting''
                [Value ''_name'' ''_symmetry_cell_setting'', Value ''_type'' ''char'',
                 Value ''_list'' ''no'',
                 Loop [''_enumeration''] [''triclinic'', ''monoclinic'']]) ''_list''
       = Some ''no''"
    by (simp_all add: find_value_def)
  have v: "\<And>it x. value_failures (validate_value1 plain_lexicon
             (from_block1 plain_lexicon (Block ''atom_site_label''
                [Value ''_name'' ''_atom_site_label'', Value ''_list'' ''yes''])
               (TypeCheckDDL1_new plain_lexicon))) subject_document subject_first it x = []"
    "value_failures (validate_value1 plain_lexicon
             (from_block1 plain_lexicon (Block ''symmetry_cell_setting''
                [Value ''_name'' ''_symmetry_cell_setting'', Value ''_type'' ''char'',
                 Value ''_list'' ''no'',
                 Loop [''_enumeration''] [''triclinic'', ''monoclinic'']])
               (TypeCheckDDL1_new plain_lexicon))) subject_document subject_first
             (Value ''_symmetry_cell_setting'' ''triclinic'') ''triclinic'' = []"
    by (simp_all add: value_failures_def check_value_def validate_value1_def
          validate_enumeration_def from_block1_def load_enumeration1_def Let_def
          TypeCheckDDL1_new_def find_value_def find_loop_def loop_column_def upt_rec
          no_failures_def plain_lexicon_def is_null_def)
  show ?thesis
    using m l
      list_cardinality [OF core_ddl_fields(1) core_ddl_find(3), of plain_lexicon
        subject_document subject_first "''C1''" 1 ?ts ?vs None]
      list_cardinality [OF core_ddl_fields(1) core_ddl_find(2), of plain_lexicon
        subject_document subject_first "''triclinic''" 0 ?ts ?vs None]
    by (simp add: core_ddl_fields core_ddl_find v)
qed

section \<open>The search: the cap\<close>

lemma process_match_max_count:
  "process_match v (p\<lparr>max_count := m\<rparr>) = (process_match v p)\<lparr>max_count := m\<rparr>"
  by (simp add: process_match_def printf_def Let_def)

lemma finish_processing_max_count:
  "finish_processing (p\<lparr>max_count := m\<rparr>) = (finish_processing p)\<lparr>max_count := m\<rparr>"
  by (simp add: finish_processing_def printf_def Let_def)

lemma Search_apply_max_count:
  "Search_apply L e (p\<lparr>max_count := m\<rparr>) = (Search_apply L e p)\<lparr>max_count := m\<rparr>"
  by (cases e) (simp_all add: process_match_max_count finish_processing_max_count Let_def)

lemma parse_max_count:
  "parse L ms (p\<lparr>max_count := m\<rparr>) = (parse L ms p)\<lparr>max_count := m\<rparr>"
  unfolding parse_def
  by (induction ms arbitrary: p) (simp_all add: Search_apply_max_count)

text \<open>
  Claim C9. The cap \<^verbatim>\<open>max_count\<close> is never read by \<^verbatim>\<open>process_match\<close>,
  \<^verbatim>\<open>finish_processing\<close> or any grammar action: for every parse and every starting
  state, running \<^verbatim>\<open>grep_file\<close> with another value of \<^verbatim>\<open>max_count\<close> gives the same final
  state up to that one field, so the same text is printed and the same count is kept.
\<close>

theorem max_count_not_enforced:
  "grep_file L tag file_path ms (par\<lparr>max_count := m\<rparr>)
     = (grep_file L tag file_path ms par)\<lparr>max_count := m\<rparr>
   \<and> stdout (grep_file L tag file_path ms (par\<lparr>max_count := m\<rparr>))
     = stdout (grep_file L tag file_path ms par)
   \<and> counter (grep_file L tag file_path ms (par\<lparr>max_count := m\<rparr>))
     = counter (grep_file L tag file_path ms par)"
proof -
  have "(par\<lparr>max_count := m\<rparr>)\<lparr>search_tag := tag, path := file_path\<rparr>
          = (par\<lparr>search_tag := tag, path := file_path\<rparr>)\<lparr>max_count := m\<rparr>"
    by simp
  then have g: "grep_file L tag file_path ms (par\<lparr>max_count := m\<rparr>)
     = (grep_file L tag file_path ms par)\<lparr>max_count := m\<rparr>"
    unfolding grep_file_def by (simp only: parse_max_count)
  then show ?thesis by simp
qed

section \<open>The search over a loop\<close>

lemma word32_of_nat_eq:
  "a < 2 ^ 32 \<Longrightarrow> b < 2 ^ 32 \<Longrightarrow> (of_nat a :: 32 word) = of_nat b \<longleftrightarrow> a = b"
  by (simp add: word_of_nat_eq_iff take_bit_nat_eq_self)

lemma word32_of_nat_neq_minus_one:
  assumes "a < 2 ^ 31"
  shows "(of_nat a :: 32 word) \<noteq> - 1"
proof -
  have m: "(- 1 :: 32 word) = of_nat 4294967295"
    by simp
  have "(of_nat a :: 32 word) = of_nat 4294967295 \<longleftrightarrow> a = 4294967295"
    using assms by (intro word32_of_nat_eq) simp_all
  with assms show ?thesis
    unfolding m by simp
qed

lemma process_match_frame:
  "column (process_match v q) = column q"
  "match_column (process_match v q) = match_column q"
  "table_width (process_match v q) = table_width q"
  "search_tag (process_match v q) = search_tag q"
  by (simp_all add: process_match_def printf_def Let_def)

lemma process_match_column_update:
  "process_match v (q\<lparr>column := x\<rparr>) = (process_match v q)\<lparr>column := x\<rparr>"
  by (simp add: process_match_def printf_def Let_def)

lemma loop_tags_other:
  "tag \<notin> set xs \<Longrightarrow> search_tag p = tag \<Longrightarrow>
   foldl (\<lambda>p m. Search_apply L m p) p (map M_loop_tag xs)
     = p\<lparr>table_width := table_width p + of_nat (length xs)\<rparr>"
proof (induction xs arbitrary: p)
  case Nil
  then show ?case by simp
next
  case (Cons x xs)
  then show ?case by (simp add: Let_def add.assoc add.commute)
qed

lemma column_update_same: "column q = x \<Longrightarrow> q\<lparr>column := x\<rparr> = q"
  by auto

lemma loop_value_step:
  assumes "match_column q = of_nat c" and "table_width q = of_nat w" and "column q = of_nat j"
    and "c < w" and "w < 2 ^ 31" and "j < w"
  shows "Search_apply L (M_loop_value x) q
     = (if j = c then process_match (as_string L x) q else q)
         \<lparr>column := (if j + 1 = w then 0 else of_nat (j + 1))\<rparr>"
proof -
  have armed: "match_column q \<noteq> - 1"
    using assms word32_of_nat_neq_minus_one [of c] by simp
  have hit: "column q = match_column q \<longleftrightarrow> j = c"
    using assms word32_of_nat_eq [of j c] by simp
  have wrap: "(of_nat j + 1 :: 32 word) = of_nat w \<longleftrightarrow> j + 1 = w"
    using assms word32_of_nat_eq [of "j + 1" w] by (simp add: add.commute)
  have suc: "(of_nat (j + 1) :: 32 word) = of_nat j + 1"
    by simp
  show ?thesis
  proof (cases "j = c")
    case True
    with hit have h: "column q = match_column q" by simp
    show ?thesis
    proof (cases "j + 1 = w")
      case w: True
      with wrap have "(of_nat j + 1 :: 32 word) = of_nat w" by simp
      with True h w armed assms(2,3) show ?thesis
        by (simp add: Let_def process_match_frame)
    next
      case w: False
      with wrap have "(of_nat j + 1 :: 32 word) \<noteq> of_nat w" by simp
      with True h w armed assms(2,3) show ?thesis
        unfolding suc by (simp add: Let_def process_match_frame)
    qed
  next
    case False
    with hit have h: "column q \<noteq> match_column q" by simp
    show ?thesis
    proof (cases "j + 1 = w")
      case w: True
      with wrap have "(of_nat j + 1 :: 32 word) = of_nat w" by simp
      with False h w armed assms(2,3) show ?thesis
        by (simp add: Let_def)
    next
      case w: False
      with wrap have "(of_nat j + 1 :: 32 word) \<noteq> of_nat w" by simp
      with False h w armed assms(2,3) show ?thesis
        unfolding suc by (simp add: Let_def)
    qed
  qed
qed

lemma loop_values_row:
  assumes "match_column q = of_nat c" and "table_width q = of_nat w" and "column q = of_nat j"
    and "c < w" and "w < 2 ^ 31" and "j < w" and "j + length xs \<le> w"
  shows "foldl (\<lambda>p m. Search_apply L m p) q (map M_loop_value xs)
     = (if j \<le> c \<and> c < j + length xs then process_match (as_string L (xs ! (c - j))) q else q)
         \<lparr>column := of_nat ((j + length xs) mod w)\<rparr>"
  using assms
proof (induction xs arbitrary: j q)
  case Nil
  then show ?case by (auto simp: column_update_same)
next
  case (Cons x xs)
  let ?q1 = "(if j = c then process_match (as_string L x) q else q)
               \<lparr>column := (if j + 1 = w then 0 else of_nat (j + 1))\<rparr>"
  have step: "Search_apply L (M_loop_value x) q = ?q1"
    by (rule loop_value_step [OF Cons.prems(1-6)])
  show ?case
  proof (cases "j + 1 = w")
    case True
    with Cons.prems(7) have "xs = []" by (cases xs) simp_all
    have "foldl (\<lambda>p m. Search_apply L m p) q (map M_loop_value [x]) = ?q1"
      by (simp only: list.map foldl_Cons foldl_Nil step)
    with True \<open>xs = []\<close> show ?thesis
      by auto
  next
    case False
    with Cons.prems have j1: "j + 1 < w" and len: "j + 1 + length xs \<le> w" by simp_all
    have q1: "match_column ?q1 = of_nat c" "table_width ?q1 = of_nat w"
      "column ?q1 = of_nat (j + 1)"
      using False Cons.prems(1,2) by (simp_all add: process_match_frame)
    have "foldl (\<lambda>p m. Search_apply L m p) q (map M_loop_value (x # xs))
        = foldl (\<lambda>p m. Search_apply L m p) ?q1 (map M_loop_value xs)"
      by (simp only: list.map foldl_Cons step)
    also have "\<dots> = (if j + 1 \<le> c \<and> c < j + 1 + length xs
                     then process_match (as_string L (xs ! (c - (j + 1)))) ?q1 else ?q1)
                    \<lparr>column := of_nat ((j + 1 + length xs) mod w)\<rparr>"
      by (rule Cons.IH [OF q1 Cons.prems(4,5) j1 len])
    also have "\<dots> = (if j \<le> c \<and> c < j + length (x # xs)
                     then process_match (as_string L ((x # xs) ! (c - j))) q else q)
                    \<lparr>column := of_nat ((j + length (x # xs)) mod w)\<rparr>"
    proof (cases "j = c")
      case True
      then show ?thesis by (simp add: False)
    next
      case ne: False
      show ?thesis
      proof (cases "j < c")
        case True
        then have "(x # xs) ! (c - j) = xs ! (c - (j + 1))"
          by (simp add: nth_Cons')
        with True ne show ?thesis
          by (auto simp: process_match_column_update)
      next
        case False
        with ne show ?thesis by auto
      qed
    qed
    finally show ?thesis .
  qed
qed

lemma loop_values_full_row:
  assumes "match_column q = of_nat c" and "table_width q = of_nat w" and "column q = 0"
    and "c < w" and "w < 2 ^ 31" and "length xs = w"
  shows "foldl (\<lambda>p m. Search_apply L m p) q (map M_loop_value xs)
     = process_match (as_string L (xs ! c)) q"
proof -
  have "foldl (\<lambda>p m. Search_apply L m p) q (map M_loop_value xs)
     = (if 0 \<le> c \<and> c < 0 + length xs then process_match (as_string L (xs ! (c - 0))) q else q)
         \<lparr>column := of_nat ((0 + length xs) mod w)\<rparr>"
    using assms by (intro loop_values_row) simp_all
  also have "\<dots> = (process_match (as_string L (xs ! c)) q)\<lparr>column := 0\<rparr>"
    using assms by simp
  also have "\<dots> = process_match (as_string L (xs ! c)) q"
    using assms(3) by (intro column_update_same) (simp add: process_match_frame)
  finally show ?thesis .
qed

lemma loop_values_rows:
  assumes "match_column q = of_nat c" and "table_width q = of_nat w" and "column q = 0"
    and "c < w" and "w < 2 ^ 31" and "length vs = n * w"
  shows "foldl (\<lambda>p m. Search_apply L m p) q (map M_loop_value vs)
     = foldl (\<lambda>q v. process_match (as_string L v) q) q
         (map (\<lambda>r. vs ! (r * w + c)) [0..<n])"
  using assms
proof (induction n arbitrary: vs q)
  case 0
  then show ?case by simp
next
  case (Suc n)
  let ?row = "take w vs" and ?rest = "drop w vs"
  let ?q1 = "process_match (as_string L (?row ! c)) q"
  have lens: "length ?row = w" "length ?rest = n * w"
    using Suc.prems(6) by simp_all
  have split: "map M_loop_value vs = map M_loop_value ?row @ map M_loop_value ?rest"
    by (simp flip: map_append)
  have row: "foldl (\<lambda>p m. Search_apply L m p) q (map M_loop_value ?row) = ?q1"
    by (rule loop_values_full_row [OF Suc.prems(1-5) lens(1)])
  have q1: "match_column ?q1 = of_nat c" "table_width ?q1 = of_nat w" "column ?q1 = 0"
    using Suc.prems(1-3) by (simp_all add: process_match_frame)
  have rest: "foldl (\<lambda>p m. Search_apply L m p) ?q1 (map M_loop_value ?rest)
      = foldl (\<lambda>q v. process_match (as_string L v) q) ?q1
          (map (\<lambda>r. ?rest ! (r * w + c)) [0..<n])"
    by (rule Suc.IH [OF q1 Suc.prems(4,5) lens(2)])
  have first: "?row ! c = vs ! (0 * w + c)"
    using Suc.prems(4) by simp
  have cells: "map (\<lambda>r. ?rest ! (r * w + c)) [0..<n]
      = map (\<lambda>r. vs ! (r * w + c)) (map Suc [0..<n])"
    using Suc.prems(6) by (simp add: add.commute add.left_commute)
  have upt: "[0..<Suc n] = 0 # map Suc [0..<n]"
    by (simp only: map_Suc_upt upt_conv_Cons [of 0 "Suc n"] zero_less_Suc)
  have "foldl (\<lambda>p m. Search_apply L m p) q (map M_loop_value vs)
      = foldl (\<lambda>p m. Search_apply L m p) ?q1 (map M_loop_value ?rest)"
    by (simp only: split foldl_append row)
  also have "\<dots> = foldl (\<lambda>q v. process_match (as_string L v) q) ?q1
          (map (\<lambda>r. vs ! (r * w + c)) (map Suc [0..<n]))"
    by (simp only: rest cells)
  also have "\<dots> = foldl (\<lambda>q v. process_match (as_string L v) q) q
          (map (\<lambda>r. vs ! (r * w + c)) [0..<Suc n])"
    by (simp only: upt list.map foldl_Cons first)
  finally show ?case .
qed

lemma word32_of_nat_sum:
  "a + 1 + b = n \<Longrightarrow> (of_nat a + 1 + of_nat b :: 32 word) = of_nat n"
  by auto

lemma loop_tags_declared:
  assumes "search_tag p = tag" and "distinct ts" and "c < length ts" and "ts ! c = tag"
  shows "foldl (\<lambda>p m. Search_apply L m p) (p\<lparr>table_width := 0\<rparr>) (map M_loop_tag ts)
     = p\<lparr>table_width := of_nat (length ts), match_column := of_nat c, column := 0\<rparr>"
proof -
  let ?pre = "take c ts" and ?post = "drop (Suc c) ts"
  have ts: "ts = ?pre @ tag # ?post"
    using assms(3,4) id_take_nth_drop by blast
  have "distinct (?pre @ tag # ?post)"
    using assms(2) ts by simp
  then have pre: "tag \<notin> set ?pre" and post: "tag \<notin> set ?post"
    by simp_all
  have lens: "length ?pre = c" "c + 1 + length ?post = length ts"
    using assms(3) by simp_all
  have "foldl (\<lambda>p m. Search_apply L m p) (p\<lparr>table_width := 0\<rparr>) (map M_loop_tag ts)
      = foldl (\<lambda>p m. Search_apply L m p)
          (Search_apply L (M_loop_tag tag)
             (foldl (\<lambda>p m. Search_apply L m p) (p\<lparr>table_width := 0\<rparr>) (map M_loop_tag ?pre)))
          (map M_loop_tag ?post)"
    by (subst ts) (simp only: map_append list.map foldl_append foldl_Cons)
  also have "foldl (\<lambda>p m. Search_apply L m p) (p\<lparr>table_width := 0\<rparr>) (map M_loop_tag ?pre)
      = p\<lparr>table_width := of_nat c\<rparr>"
    using loop_tags_other [OF pre, of "p\<lparr>table_width := 0\<rparr>" L] assms(1) lens(1) by simp
  also have "Search_apply L (M_loop_tag tag) (p\<lparr>table_width := of_nat c\<rparr>)
      = p\<lparr>table_width := of_nat c + 1, match_column := of_nat c, column := 0\<rparr>"
    using assms(1) by (simp add: Let_def)
  also have "foldl (\<lambda>p m. Search_apply L m p)
        (p\<lparr>table_width := of_nat c + 1, match_column := of_nat c, column := 0\<rparr>)
        (map M_loop_tag ?post)
      = p\<lparr>table_width := of_nat c + 1 + of_nat (length ?post),
           match_column := of_nat c, column := 0\<rparr>"
    using loop_tags_other [OF post,
        of "p\<lparr>table_width := of_nat c + 1, match_column := of_nat c, column := 0\<rparr>" L]
      assms(1)
    by simp
  also have "(of_nat c + 1 + of_nat (length ?post) :: 32 word) = of_nat (length ts)"
    by (rule word32_of_nat_sum [OF lens(2)])
  finally show ?thesis .
qed

lemma process_matches_match_column:
  "match_column (foldl (\<lambda>q v. process_match (as_string L v) q) q vals) = match_column q"
  by (induction vals arbitrary: q) (simp_all add: process_match_frame)

lemma match_text_stdout: "match_text v (q\<lparr>stdout := s\<rparr>) = match_text v q"
  by (simp add: match_text_def)

lemma process_match_print:
  "\<not> print_count q \<Longrightarrow> process_match v q = q\<lparr>stdout := stdout q @ match_text v q\<rparr>"
  by (simp add: process_match_def printf_def match_text_def Let_def)

lemma process_matches_print:
  "\<not> print_count q \<Longrightarrow>
   foldl (\<lambda>q v. process_match (as_string L v) q) q vals
     = q\<lparr>stdout := stdout q @ concat (map (\<lambda>v. match_text (as_string L v) q) vals)\<rparr>"
proof (induction vals arbitrary: q)
  case Nil
  then show ?case by simp
next
  case (Cons v vals)
  then show ?case
    by (simp add: process_match_print match_text_stdout)
qed

lemma process_match_count:
  "print_count q \<Longrightarrow> process_match v q = q\<lparr>counter := counter q + 1\<rparr>"
  by (simp add: process_match_def)

lemma process_matches_count:
  "print_count q \<Longrightarrow>
   foldl (\<lambda>q v. process_match (as_string L v) q) q vals
     = q\<lparr>counter := counter q + of_nat (length vals)\<rparr>"
proof (induction vals arbitrary: q)
  case Nil
  then show ?case by simp
next
  case (Cons v vals)
  then show ?case
    by (simp add: process_match_count add.assoc add.commute)
qed

lemma loop_parse:
  assumes "search_tag p = tag" and "distinct ts" and "c < length ts" and "ts ! c = tag"
    and "length ts < 2 ^ 31" and "length vs = n * length ts"
  shows "parse L ([M_str_loop] @ map M_loop_tag ts @ map M_loop_value vs @ [M_loop_end]) p
     = (finish_processing
          (foldl (\<lambda>q v. process_match (as_string L v) q)
             (p\<lparr>table_width := of_nat (length ts), match_column := of_nat c, column := 0\<rparr>)
             (map (\<lambda>r. vs ! (r * length ts + c)) [0..<n])))
        \<lparr>match_column := - 1\<rparr>"
proof -
  let ?q = "p\<lparr>table_width := of_nat (length ts), match_column := of_nat c, column := 0\<rparr>"
  let ?r = "foldl (\<lambda>q v. process_match (as_string L v) q) ?q
              (map (\<lambda>r. vs ! (r * length ts + c)) [0..<n])"
  have tags: "foldl (\<lambda>p m. Search_apply L m p) (Search_apply L M_str_loop p) (map M_loop_tag ts) = ?q"
    using loop_tags_declared [OF assms(1-4), of L] by simp
  have q: "match_column ?q = of_nat c" "table_width ?q = of_nat (length ts)" "column ?q = 0"
    by simp_all
  have vals: "foldl (\<lambda>p m. Search_apply L m p) ?q (map M_loop_value vs) = ?r"
    by (rule loop_values_rows [OF q assms(3,5,6)])
  have "match_column ?r = of_nat c"
    by (simp add: process_matches_match_column)
  then have armed: "match_column ?r \<noteq> - 1"
    using assms(3,5) word32_of_nat_neq_minus_one [of c] by simp
  have "parse L ([M_str_loop] @ map M_loop_tag ts @ map M_loop_value vs @ [M_loop_end]) p
      = Search_apply L M_loop_end ?r"
    unfolding parse_def
    by (simp only: foldl_append foldl_Cons foldl_Nil tags vals)
  also have "\<dots> = (finish_processing ?r)\<lparr>match_column := - 1\<rparr>"
    using armed by simp
  finally show ?thesis .
qed

text \<open>
  Claim C8. For a loop with the distinct tags \<open>ts\<close>, the search tag declared as column
  \<open>c\<close>, and \<open>n\<close> rows of values \<open>vs\<close>, the parse of the loop (loop start, the tags, the
  values, loop end) calls \<^verbatim>\<open>process_match\<close> exactly \<open>n\<close> times, once per row in row order,
  on the value at position \<open>r * w + c\<close> of the flat value sequence, \<open>w\<close> being the
  number of tags, and then finishes and disarms the column. This rests on the single
  step: with a column armed, a loop value is passed to \<^verbatim>\<open>process_match\<close> exactly if the
  column counter equals the recorded match column, and the counter is then incremented
  and set back to 0 when it reaches \<^verbatim>\<open>table_width\<close>. When values are printed,
  the output grows by exactly these \<open>n\<close> matches in row order; when matches are counted,
  the counter is raised by \<open>n\<close> before \<^verbatim>\<open>finish_processing\<close> prints it. The number of
  tags is below \<open>2^31\<close>, the range of the \<^verbatim>\<open>int\<close> fields.
\<close>

theorem loop_search_emits_column:
  assumes "search_tag p = tag" and "distinct ts" and "c < length ts" and "ts ! c = tag"
    and "length ts < 2 ^ 31" and "length vs = n * length ts"
  shows "parse L ([M_str_loop] @ map M_loop_tag ts @ map M_loop_value vs @ [M_loop_end]) p
         = (finish_processing
              (foldl (\<lambda>q v. process_match (as_string L v) q)
                 (p\<lparr>table_width := of_nat (length ts), match_column := of_nat c, column := 0\<rparr>)
                 (map (\<lambda>r. vs ! (r * length ts + c)) [0..<n])))
            \<lparr>match_column := - 1\<rparr>
     \<and> (\<not> print_count p \<longrightarrow>
          stdout (parse L ([M_str_loop] @ map M_loop_tag ts @ map M_loop_value vs @ [M_loop_end]) p)
          = stdout p
            @ concat (map (\<lambda>r. match_text (as_string L (vs ! (r * length ts + c))) p) [0..<n]))
     \<and> (print_count p \<longrightarrow>
          parse L ([M_str_loop] @ map M_loop_tag ts @ map M_loop_value vs @ [M_loop_end]) p
          = (finish_processing
               (p\<lparr>table_width := of_nat (length ts), match_column := of_nat c, column := 0,
                   counter := counter p + of_nat n\<rparr>))
             \<lparr>match_column := - 1\<rparr>)
     \<and> (match_column q \<noteq> - 1 \<longrightarrow>
          Search_apply L (M_loop_value x) q
          = (if column q = match_column q then process_match (as_string L x) q else q)
              \<lparr>column := (if column q + 1 = table_width q then 0 else column q + 1)\<rparr>)"
proof (intro conjI impI)
  show "Search_apply L (M_loop_value x) q
          = (if column q = match_column q then process_match (as_string L x) q else q)
              \<lparr>column := (if column q + 1 = table_width q then 0 else column q + 1)\<rparr>"
    if "match_column q \<noteq> - 1"
    using that by (simp add: Let_def process_match_frame)
  let ?q = "p\<lparr>table_width := of_nat (length ts), match_column := of_nat c, column := 0\<rparr>"
  note lp = loop_parse [OF assms, of L]
  show "parse L ([M_str_loop] @ map M_loop_tag ts @ map M_loop_value vs @ [M_loop_end]) p
         = (finish_processing
              (foldl (\<lambda>q v. process_match (as_string L v) q) ?q
                 (map (\<lambda>r. vs ! (r * length ts + c)) [0..<n])))
            \<lparr>match_column := - 1\<rparr>"
    by (rule lp)
  show "stdout (parse L ([M_str_loop] @ map M_loop_tag ts @ map M_loop_value vs @ [M_loop_end]) p)
          = stdout p
            @ concat (map (\<lambda>r. match_text (as_string L (vs ! (r * length ts + c))) p) [0..<n])"
    if "\<not> print_count p"
  proof -
    from that have np: "\<not> print_count ?q" by simp
    have mt: "\<And>v. match_text v ?q = match_text v p"
      by (simp add: match_text_def)
    show ?thesis
      unfolding lp process_matches_print [OF np]
      using that by (simp add: finish_processing_def mt comp_def)
  qed
  show "parse L ([M_str_loop] @ map M_loop_tag ts @ map M_loop_value vs @ [M_loop_end]) p
          = (finish_processing
               (p\<lparr>table_width := of_nat (length ts), match_column := of_nat c, column := 0,
                   counter := counter p + of_nat n\<rparr>))
             \<lparr>match_column := - 1\<rparr>"
    if "print_count p"
  proof -
    from that have pc: "print_count ?q" by simp
    show ?thesis
      unfolding lp process_matches_count [OF pc] by simp
  qed
qed

theorem loop_search_emits_column_witness:
  "search_tag (Parameters_new\<lparr>search_tag := ''_atom_site.label'', block_name := ''1ABC''\<rparr>)
     = ''_atom_site.label''
   \<and> distinct [''_atom_site.id'', ''_atom_site.label'', ''_atom_site.x'', ''_atom_site.y'',
               ''_atom_site.z'']
   \<and> (1::nat) < length [''_atom_site.id'', ''_atom_site.label'', ''_atom_site.x'',
                         ''_atom_site.y'', ''_atom_site.z'']
   \<and> [''_atom_site.id'', ''_atom_site.label'', ''_atom_site.x'', ''_atom_site.y'',
       ''_atom_site.z''] ! 1 = ''_atom_site.label''
   \<and> length [''_atom_site.id'', ''_atom_site.label'', ''_atom_site.x'', ''_atom_site.y'',
              ''_atom_site.z''] < 2 ^ 31
   \<and> length [''1'', ''C1'', ''0'', ''0'', ''0'', ''2'', ''O1'', ''1'', ''1'', ''1'',
              ''3'', ''N1'', ''2'', ''2'', ''2'']
       = 3 * length [''_atom_site.id'', ''_atom_site.label'', ''_atom_site.x'',
                     ''_atom_site.y'', ''_atom_site.z'']
   \<and> stdout (parse plain_lexicon
        ([M_str_loop]
         @ map M_loop_tag [''_atom_site.id'', ''_atom_site.label'', ''_atom_site.x'',
                           ''_atom_site.y'', ''_atom_site.z'']
         @ map M_loop_value [''1'', ''C1'', ''0'', ''0'', ''0'', ''2'', ''O1'', ''1'', ''1'', ''1'',
                             ''3'', ''N1'', ''2'', ''2'', ''2'']
         @ [M_loop_end])
        (Parameters_new\<lparr>search_tag := ''_atom_site.label'', block_name := ''1ABC''\<rparr>))
       = ''1ABC:  C1'' @ [CHR 0x0A] @ ''1ABC:  O1'' @ [CHR 0x0A] @ ''1ABC:  N1'' @ [CHR 0x0A]"
proof -
  let ?p = "Parameters_new\<lparr>search_tag := ''_atom_site.label'', block_name := ''1ABC''\<rparr>"
  let ?ts = "[''_atom_site.id'', ''_atom_site.label'', ''_atom_site.x'', ''_atom_site.y'',
              ''_atom_site.z'']"
  let ?vs = "[''1'', ''C1'', ''0'', ''0'', ''0'', ''2'', ''O1'', ''1'', ''1'', ''1'',
              ''3'', ''N1'', ''2'', ''2'', ''2'']"
  have h: "search_tag ?p = ''_atom_site.label''" "distinct ?ts" "(1::nat) < length ?ts"
    "?ts ! 1 = ''_atom_site.label''" "length ?ts < 2 ^ 31" "length ?vs = 3 * length ?ts"
    by simp_all
  have np: "\<not> print_count ?p" and out: "stdout ?p = []"
    by (simp_all add: Parameters_new_def)
  have rows: "[0..<3] = [0, 1, 2]"
    by (simp add: upt_rec)
  have "stdout (parse plain_lexicon
          ([M_str_loop] @ map M_loop_tag ?ts @ map M_loop_value ?vs @ [M_loop_end]) ?p)
      = stdout ?p
        @ concat (map (\<lambda>r. match_text (as_string plain_lexicon (?vs ! (r * length ?ts + 1))) ?p)
                   [0..<3])"
    using loop_search_emits_column [OF h, of plain_lexicon] np by blast
  also have "\<dots> = ''1ABC:  C1'' @ [CHR 0x0A] @ ''1ABC:  O1'' @ [CHR 0x0A] @ ''1ABC:  N1'' @ [CHR 0x0A]"
    unfolding rows out
    by (simp add: match_text_def Parameters_new_def plain_lexicon_def)
  finally show ?thesis
    using h by blast
qed

section \<open>The search: block boundaries\<close>

lemma parse_append: "parse L (xs @ ys) p = parse L ys (parse L xs p)"
  by (simp add: parse_def)

lemma process_match_working:
  "match_value (process_match v p) = match_value p"
  "print_count (process_match v p) = print_count p"
  "counter (process_match v p) = (if print_count p then counter p + 1 else counter p)"
  by (simp_all add: process_match_def printf_def Let_def)

lemma finish_processing_working:
  "match_value (finish_processing p) = match_value p"
  "match_column (finish_processing p) = match_column p"
  "print_count (finish_processing p) = print_count p"
  "counter (finish_processing p) = (if print_count p then 0 else counter p)"
  by (simp_all add: finish_processing_def printf_def Let_def)

lemma idle_dataitem: "idle p \<Longrightarrow> idle (parse L [M_tag t, M_value v] p)"
  by (simp add: idle_def parse_def process_match_working finish_processing_working
        process_match_frame)

lemma in_loop_tags_step:
  "in_loop_tags p \<Longrightarrow> in_loop_tags (Search_apply L (M_loop_tag t) p)"
  by (simp add: in_loop_tags_def Let_def)

lemma foldl_invariant:
  assumes "\<And>q x. P q \<Longrightarrow> P (f q x)" and "P q"
  shows "P (foldl f q xs)"
  using assms(2) by (induction xs arbitrary: q) (simp_all add: assms(1))

lemma in_loop_tags_all:
  "in_loop_tags p \<Longrightarrow> in_loop_tags (parse L (map M_loop_tag ts) p)"
  unfolding parse_def foldl_map
  by (rule foldl_invariant) (rule in_loop_tags_step)

lemma in_loop_values_step:
  "in_loop_values p \<Longrightarrow> in_loop_values (Search_apply L (M_loop_value v) p)"
  by (auto simp: in_loop_values_def Let_def process_match_working process_match_frame)

lemma in_loop_values_all:
  "in_loop_values p \<Longrightarrow> in_loop_values (parse L (map M_loop_value vs) p)"
  unfolding parse_def foldl_map
  by (rule foldl_invariant) (rule in_loop_values_step)

lemma idle_loop_end: "in_loop_values p \<Longrightarrow> idle (Search_apply L M_loop_end p)"
  by (auto simp: in_loop_values_def idle_def finish_processing_working)

lemma idle_loop:
  assumes "idle p"
  shows "idle (parse L ([M_str_loop] @ map M_loop_tag ts @ map M_loop_value vs @ [M_loop_end]) p)"
proof -
  let ?p1 = "Search_apply L M_str_loop p"
  let ?p2 = "parse L (map M_loop_tag ts) ?p1"
  let ?p3 = "parse L (map M_loop_value vs) ?p2"
  have "in_loop_tags ?p1"
    using assms by (simp add: idle_def in_loop_tags_def)
  then have "in_loop_tags ?p2"
    by (rule in_loop_tags_all)
  then have "in_loop_values ?p2"
    by (simp add: in_loop_tags_def in_loop_values_def)
  then have "in_loop_values ?p3"
    by (rule in_loop_values_all)
  then have "idle (Search_apply L M_loop_end ?p3)"
    by (rule idle_loop_end)
  moreover have "parse L ([M_str_loop] @ map M_loop_tag ts @ map M_loop_value vs @ [M_loop_end]) p
      = Search_apply L M_loop_end ?p3"
    by (simp add: parse_def)
  ultimately show ?thesis by simp
qed

lemma idle_production: "idle p \<Longrightarrow> idle (parse L (matches_of pr) p)"
proof (cases pr)
  case (P_dataitem t v)
  assume "idle p"
  then show ?thesis
    unfolding P_dataitem matches_of.simps by (rule idle_dataitem)
next
  case (P_loop ts vs)
  assume "idle p"
  then show ?thesis
    unfolding P_loop matches_of.simps by (rule idle_loop)
qed (simp_all add: idle_def parse_def)

lemma idle_file: "idle p \<Longrightarrow> idle (parse L (file_matches ps) p)"
proof (induction ps arbitrary: p)
  case Nil
  then show ?case by (simp add: file_matches_def parse_def)
next
  case (Cons pr ps)
  have "file_matches (pr # ps) = matches_of pr @ file_matches ps"
    by (simp add: file_matches_def)
  then show ?case
    using Cons.IH [OF idle_production [OF Cons.prems, of L pr]]
    by (simp only: parse_append)
qed


text \<open>
  Claim C10. Between two productions no match is pending: a data item disarms
  \<^verbatim>\<open>match_value\<close>, a loop end disarms \<^verbatim>\<open>match_column\<close>, and \<^verbatim>\<open>finish_processing\<close> sets the
  counter back to 0, which is only raised when matches are counted. So at every data
  block name (and at \<^verbatim>\<open>global_\<close>) of a file, read from a state with no match pending
  such as the initial \<^verbatim>\<open>Parameters\<close> with any options, the state after the action has
  \<^verbatim>\<open>block_name\<close> set to the matched name (to the literal \<^verbatim>\<open>global_\<close>), \<^verbatim>\<open>match_value\<close>
  false, \<^verbatim>\<open>match_column\<close> at -1 and the counter at 0, and every other field, the search
  tag and the output flags among them, as before the action. A file leaves the state
  with no match pending, so the same holds for each file \<^verbatim>\<open>grep_file\<close> reads in turn.
\<close>

theorem datablockname_resets_counters:
  fixes L :: lexicon and ps :: "production list" and p0 :: search_state
  defines "p \<equiv> parse L (file_matches ps) p0"
  assumes "\<not> match_value p0" and "match_column p0 = - 1" and "counter p0 = 0"
  shows "Search_apply L (M_datablockname s) p
           = p\<lparr>block_name := s, match_value := False, match_column := - 1, counter := 0\<rparr>
       \<and> Search_apply L M_str_global p
           = p\<lparr>block_name := ''global_'', match_value := False, match_column := - 1,
               counter := 0\<rparr>
       \<and> search_tag (Search_apply L (M_datablockname s) p) = search_tag p
       \<and> with_filename (Search_apply L (M_datablockname s) p) = with_filename p
       \<and> with_blockname (Search_apply L (M_datablockname s) p) = with_blockname p
       \<and> with_tag (Search_apply L (M_datablockname s) p) = with_tag p
       \<and> print_count (Search_apply L (M_datablockname s) p) = print_count p
       \<and> search_tag (Search_apply L M_str_global p) = search_tag p
       \<and> with_filename (Search_apply L M_str_global p) = with_filename p
       \<and> with_blockname (Search_apply L M_str_global p) = with_blockname p
       \<and> with_tag (Search_apply L M_str_global p) = with_tag p
       \<and> print_count (Search_apply L M_str_global p) = print_count p
       \<and> \<not> match_value (grep_file L tag file_path (file_matches ps) p0)
       \<and> match_column (grep_file L tag file_path (file_matches ps) p0) = - 1
       \<and> counter (grep_file L tag file_path (file_matches ps) p0) = 0"
proof -
  have "idle p0"
    using assms(2-4) by (simp add: idle_def)
  then have "idle p"
    unfolding p_def by (rule idle_file)
  then have p: "match_value p = False" "match_column p = - 1" "counter p = 0"
    by (simp_all add: idle_def)
  have "idle (p0\<lparr>search_tag := tag, path := file_path\<rparr>)"
    using assms(2-4) by (simp add: idle_def)
  then have "idle (grep_file L tag file_path (file_matches ps) p0)"
    unfolding grep_file_def by (rule idle_file)
  then have g: "\<not> match_value (grep_file L tag file_path (file_matches ps) p0)"
    "match_column (grep_file L tag file_path (file_matches ps) p0) = - 1"
    "counter (grep_file L tag file_path (file_matches ps) p0) = 0"
    by (simp_all add: idle_def)
  have a: "p\<lparr>block_name := s, match_value := False, match_column := - 1, counter := 0\<rparr>
      = p\<lparr>block_name := s\<rparr>"
    using p by simp
  have b: "p\<lparr>block_name := ''global_'', match_value := False, match_column := - 1,
              counter := 0\<rparr> = p\<lparr>block_name := ''global_''\<rparr>"
    using p by simp
  show ?thesis
    unfolding a b using g by simp
qed

theorem datablockname_resets_counters_witness:
  "\<not> match_value (Parameters_new\<lparr>search_tag := ''_cell.length_a'', print_count := True\<rparr>)
   \<and> match_column (Parameters_new\<lparr>search_tag := ''_cell.length_a'', print_count := True\<rparr>) = - 1
   \<and> counter (Parameters_new\<lparr>search_tag := ''_cell.length_a'', print_count := True\<rparr>) = 0
   \<and> block_name (Search_apply plain_lexicon (M_datablockname ''second'')
         (parse plain_lexicon
            (file_matches [P_datablock ''first'', P_dataitem ''_cell.length_a'' ''5'',
               P_loop [''_cell.length_a'', ''_cell.length_b''] [''1'', ''2'', ''3'', ''4'']])
            (Parameters_new\<lparr>search_tag := ''_cell.length_a'', print_count := True\<rparr>)))
       = ''second''
   \<and> \<not> match_value (Search_apply plain_lexicon (M_datablockname ''second'')
         (parse plain_lexicon
            (file_matches [P_datablock ''first'', P_dataitem ''_cell.length_a'' ''5'',
               P_loop [''_cell.length_a'', ''_cell.length_b''] [''1'', ''2'', ''3'', ''4'']])
            (Parameters_new\<lparr>search_tag := ''_cell.length_a'', print_count := True\<rparr>)))
   \<and> match_column (Search_apply plain_lexicon (M_datablockname ''second'')
         (parse plain_lexicon
            (file_matches [P_datablock ''first'', P_dataitem ''_cell.length_a'' ''5'',
               P_loop [''_cell.length_a'', ''_cell.length_b''] [''1'', ''2'', ''3'', ''4'']])
            (Parameters_new\<lparr>search_tag := ''_cell.length_a'', print_count := True\<rparr>)))
       = - 1
   \<and> counter (Search_apply plain_lexicon (M_datablockname ''second'')
         (parse plain_lexicon
            (file_matches [P_datablock ''first'', P_dataitem ''_cell.length_a'' ''5'',
               P_loop [''_cell.length_a'', ''_cell.length_b''] [''1'', ''2'', ''3'', ''4'']])
            (Parameters_new\<lparr>search_tag := ''_cell.length_a'', print_count := True\<rparr>)))
       = 0"
proof -
  let ?p0 = "Parameters_new\<lparr>search_tag := ''_cell.length_a'', print_count := True\<rparr>"
  have h: "\<not> match_value ?p0" "match_column ?p0 = - 1" "counter ?p0 = 0"
    by (simp_all add: Parameters_new_def)
  have e: "Search_apply plain_lexicon (M_datablockname ''second'')
         (parse plain_lexicon
            (file_matches [P_datablock ''first'', P_dataitem ''_cell.length_a'' ''5'',
               P_loop [''_cell.length_a'', ''_cell.length_b''] [''1'', ''2'', ''3'', ''4'']]) ?p0)
      = (parse plain_lexicon
            (file_matches [P_datablock ''first'', P_dataitem ''_cell.length_a'' ''5'',
               P_loop [''_cell.length_a'', ''_cell.length_b''] [''1'', ''2'', ''3'', ''4'']]) ?p0)
          \<lparr>block_name := ''second'', match_value := False, match_column := - 1, counter := 0\<rparr>"
    using datablockname_resets_counters [OF h, where L = plain_lexicon and s = "''second''"] by blast
  show ?thesis
    unfolding e using h by simp
qed

end
